theory Spec2Isabelle
  imports Complex_Main "HOL-Library.AList"
begin

section \<open>Python values used by \<open>utils.py\<close>\<close>

text \<open>
  The exceptions that the modelled code can raise. Every place where the Python raises is
  a branch of the model that returns \<open>Inl\<close> of one of them.
\<close>

datatype error = FileNotFoundError | ValueError | AttributeError | TypeError | IndexError

text \<open>
  A Python \<open>float\<close> (a binary64 number): a finite value, one of the two infinities, or NaN.
  pandas uses NaN as the missing value of a numeric column.
\<close>

datatype pyfloat = Finite rat | PosInf | NegInf | NaN

text \<open>\<open>a < c\<close> for a float \<open>a\<close> and a finite constant \<open>c\<close>: every comparison with NaN is false.\<close>

fun float_lt :: "pyfloat \<Rightarrow> rat \<Rightarrow> bool" where
  "float_lt (Finite q) c = (q < c)"
| "float_lt NegInf c = True"
| "float_lt PosInf c = False"
| "float_lt NaN c = False"

fun float_neg :: "pyfloat \<Rightarrow> pyfloat" where
  "float_neg (Finite q) = Finite (- q)"
| "float_neg PosInf = NegInf"
| "float_neg NegInf = PosInf"
| "float_neg NaN = NaN"

subsection \<open>Rounding a rational to binary64\<close>

text \<open>
  \<open>float(s)\<close> returns the binary64 number nearest to the decimal value of \<open>s\<close>, ties to
  the even significand, and an infinity from \<open>2 ^ 1024 - 2 ^ 970\<close> on. Only a number of
  exponent 1023 or more can round to \<open>2 ^ 1024\<close>, and its unit in the last place is a whole
  number.
\<close>

function bit_length :: "int \<Rightarrow> nat" where
  "bit_length n = (if n \<le> 0 then 0 else Suc (bit_length (n div 2)))"
  by pat_completeness auto
termination
  by (relation "measure nat") auto

declare bit_length.simps [simp del]

definition pow2 :: "int \<Rightarrow> rat" where
  "pow2 e = (if 0 \<le> e then 2 ^ nat e else 1 / 2 ^ nat (- e))"

text \<open>For \<open>q > 0\<close>, the exponent \<open>e\<close> with \<open>2 ^ e \<le> q < 2 ^ (e + 1)\<close>.\<close>

definition floor_log2 :: "rat \<Rightarrow> int" where
  "floor_log2 q =
     (let (a, b) = quotient_of q;
          e0 = int (bit_length a) - int (bit_length b)
      in if q < pow2 e0 then e0 - 1 else e0)"

definition round_half_even :: "rat \<Rightarrow> int" where
  "round_half_even q =
     (let f = \<lfloor>q\<rfloor>; r = q - of_int f
      in if r < 1 / 2 then f else if 1 / 2 < r then f + 1 else if even f then f else f + 1)"

definition round_binary64_pos :: "rat \<Rightarrow> pyfloat" where
  "round_binary64_pos q =
     (let e = floor_log2 q;
          p = max (e - 52) (- 1074);
          m = round_half_even (q / pow2 p);
          r = of_int m * pow2 p
      in if e < 1023 then Finite r
         else if (2::int) ^ 1024 \<le> m * 2 ^ nat p then PosInf
         else Finite r)"

definition round_binary64 :: "rat \<Rightarrow> pyfloat" where
  "round_binary64 q =
     (if q = 0 then Finite 0
      else if 0 < q then round_binary64_pos q
      else float_neg (round_binary64_pos (- q)))"

subsection \<open>\<open>float(s)\<close> on a string\<close>

text \<open>
  A \<open>char\<close> is a character of code point below 256, and a string a text of such
  characters. Among them the digits are the ASCII digits, and the white space that \<open>float\<close>
  removes from the two ends of its argument is the space, the characters 9 to 13, and the
  characters 133 and 160 (next line and no-break space); \<open>float\<close> does not remove the
  separators 28 to 31.
\<close>

definition is_digit :: "char \<Rightarrow> bool" where
  "is_digit c = (c \<in> set ''0123456789'')"

definition digit_val :: "char \<Rightarrow> int" where
  "digit_val c = of_char c - 48"

definition is_space :: "char \<Rightarrow> bool" where
  "is_space c = (c \<in> {CHR '' '', CHR 0x09, CHR 0x0A, CHR 0x0B, CHR 0x0C, CHR 0x0D, CHR 0x85, CHR 0xA0})"

definition strip :: "string \<Rightarrow> string" where
  "strip s = rev (dropWhile is_space (rev (dropWhile is_space s)))"

text \<open>
  \<open>upper\<close> turns the letters \<open>a\<close> to \<open>z\<close> into \<open>A\<close> to \<open>Z\<close>. (\<open>str.upper\<close> also changes
  letters above 127, none of them into an ASCII letter at the first place of the result.)
\<close>

definition to_upper :: "char \<Rightarrow> char" where
  "to_upper c =
     (case map_of (zip ''abcdefghijklmnopqrstuvwxyz'' ''ABCDEFGHIJKLMNOPQRSTUVWXYZ'') c of
        Some u \<Rightarrow> u
      | None \<Rightarrow> c)"

definition upper :: "string \<Rightarrow> string" where
  "upper s = map to_upper s"

text \<open>
  An underscore is accepted between two digits only; the number is read from the text
  without its underscores. \<open>prev\<close> is the character before, \<open>CHR 0x00\<close> at the start.
\<close>

fun strip_underscores :: "char \<Rightarrow> string \<Rightarrow> string option" where
  "strip_underscores prev [] = (if prev = CHR ''_'' then None else Some [])"
| "strip_underscores prev (c # cs) =
     (if c = CHR ''_'' then (if is_digit prev then strip_underscores c cs else None)
      else if prev = CHR ''_'' \<and> \<not> is_digit c then None
      else map_option ((#) c) (strip_underscores c cs))"

definition int_of_digits :: "string \<Rightarrow> int" where
  "int_of_digits ds = foldl (\<lambda>n c. 10 * n + digit_val c) 0 ds"

definition split_sign :: "string \<Rightarrow> bool \<times> string" where
  "split_sign s =
     (case s of
        c # cs \<Rightarrow> if c = CHR ''-'' then (True, cs) else if c = CHR ''+'' then (False, cs) else (False, s)
      | [] \<Rightarrow> (False, s))"

text \<open>The exponent part: nothing, or \<open>e\<close> or \<open>E\<close>, an optional sign and at least one digit.\<close>

definition parse_exponent :: "string \<Rightarrow> int option" where
  "parse_exponent s =
     (case s of
        [] \<Rightarrow> Some 0
      | c # cs \<Rightarrow>
          if c = CHR ''e'' \<or> c = CHR ''E'' then
            (let (neg, ds) = split_sign cs
             in if ds \<noteq> [] \<and> list_all is_digit ds
                then Some (if neg then - int_of_digits ds else int_of_digits ds)
                else None)
          else None)"

text \<open>A decimal number without sign: digits, an optional point and digits, an exponent.\<close>

definition parse_decimal :: "string \<Rightarrow> rat option" where
  "parse_decimal s =
     (let ds1 = takeWhile is_digit s; r1 = dropWhile is_digit s;
          r2 = (case r1 of c # cs \<Rightarrow> if c = CHR ''.'' then cs else r1 | [] \<Rightarrow> r1);
          ds2 = (if r2 = r1 then [] else takeWhile is_digit r2);
          r3 = (if r2 = r1 then r1 else dropWhile is_digit r2)
      in if ds1 = [] \<and> ds2 = [] then None
         else (case parse_exponent r3 of
                 None \<Rightarrow> None
               | Some e \<Rightarrow>
                   (let k = e - int (length ds2); n = of_int (int_of_digits (ds1 @ ds2))
                    in Some (if 0 \<le> k then n * 10 ^ nat k else n / 10 ^ nat (- k)))))"

definition py_float :: "string \<Rightarrow> pyfloat option" where
  "py_float s =
     (case strip_underscores (CHR 0x00) (strip s) of
        None \<Rightarrow> None
      | Some t \<Rightarrow>
          (let (neg, body) = split_sign t; u = upper body
           in if u = ''INF'' \<or> u = ''INFINITY'' then Some (if neg then NegInf else PosInf)
              else if u = ''NAN'' then Some NaN
              else (case parse_decimal body of
                      None \<Rightarrow> None
                    | Some q \<Rightarrow> Some (round_binary64 (if neg then - q else q)))))"

subsection \<open>\<open>str.split\<close>\<close>

text \<open>\<open>s.split(sep)\<close> for a separator of one character: the list is never empty.\<close>

fun split_on :: "char \<Rightarrow> string \<Rightarrow> string list" where
  "split_on sep [] = [[]]"
| "split_on sep (c # cs) =
     (if c = sep then [] # split_on sep cs
      else (case split_on sep cs of p # ps \<Rightarrow> (c # p) # ps | [] \<Rightarrow> [[c]]))"

section \<open>Time-control categories\<close>

text \<open>
  \<open>categorize_time_control\<close> (nested in \<open>preprocess_data\<close>). A cell of the \<open>TimeControl\<close>
  column is a string or missing (\<open>None\<close>). Inside the \<open>try\<close>, the index \<open>[0]\<close> and
  \<open>float\<close> can raise; the bare \<open>except\<close> turns every exception into \<open>Unknown\<close>.
\<close>

definition categorize_time_control :: "string option \<Rightarrow> string" where
  "categorize_time_control x =
     (case x of
        None \<Rightarrow> ''Unknown''
      | Some s \<Rightarrow>
          (case split_on (CHR ''+'') s of
             [] \<Rightarrow> ''Unknown''
           | part # _ \<Rightarrow>
               (case py_float part of
                  None \<Rightarrow> ''Unknown''
                | Some base_time \<Rightarrow>
                    if float_lt base_time 180 then ''Bullet (<3min)''
                    else if float_lt base_time 600 then ''Blitz (3-10min)''
                    else if float_lt base_time 3600 then ''Rapid (10-60min)''
                    else ''Classical (>60min)'')))"

section \<open>Opening categories\<close>

definition categories :: "(char \<times> string) list" where
  "categories =
     [(CHR ''A'', ''Flank Openings''),
      (CHR ''B'', ''Semi-Open Games''),
      (CHR ''C'', ''Open Games''),
      (CHR ''D'', ''Closed Games''),
      (CHR ''E'', ''Indian Defenses'')]"

text \<open>
  \<open>get_opening_category\<close>: \<open>eco_code[0]\<close> raises \<open>IndexError\<close> on the empty string;
  \<open>categories.get(first_letter, 'Other')\<close> is the lookup with a default.
\<close>

definition get_opening_category :: "string option \<Rightarrow> error + string" where
  "get_opening_category eco_code =
     (case eco_code of
        None \<Rightarrow> Inr ''Unknown''
      | Some s \<Rightarrow>
          (case upper s of
             [] \<Rightarrow> Inl IndexError
           | first_letter # _ \<Rightarrow>
               Inr (case map_of categories first_letter of Some c \<Rightarrow> c | None \<Rightarrow> ''Other'')))"

section \<open>Loader\<close>

text \<open>
  What \<open>load_chess_data\<close> reads and could change: the files, each one the list of rows that
  \<open>pd.read_csv\<close> parses from it (no entry: the file does not exist), and the state of
  numpy's global random generator.
\<close>

record ('row, 'g) world =
  files :: "string \<Rightarrow> 'row list option"
  np_random :: 'g

text \<open>
  The random generator of numpy, taken as a parameter: \<open>random_state seed\<close> is the state of
  a new generator made from a seed, and \<open>choice g N n\<close> draws the positions of \<open>n\<close> rows out
  of \<open>N\<close> without replacement from the state \<open>g\<close>, and returns the state after.
\<close>

record 'g sampler =
  random_state :: "int \<Rightarrow> 'g"
  choice :: "'g \<Rightarrow> nat \<Rightarrow> nat \<Rightarrow> nat list \<times> 'g"

definition valid_sampler :: "'g sampler \<Rightarrow> bool" where
  "valid_sampler lib =
     (\<forall>g N n. n \<le> N \<longrightarrow>
        length (fst (choice lib g N n)) = n \<and> distinct (fst (choice lib g N n))
        \<and> set (fst (choice lib g N n)) \<subseteq> {..<N})"

definition chunk_size :: nat where
  "chunk_size = 100000"

definition read_csv :: "('row, 'g) world \<Rightarrow> string \<Rightarrow> error + 'row list" where
  "read_csv w filepath =
     (case files w filepath of None \<Rightarrow> Inl FileNotFoundError | Some rows \<Rightarrow> Inr rows)"

text \<open>
  The blocks that the iterator of \<open>pd.read_csv(filepath, chunksize=n)\<close> yields: each has
  \<open>n\<close> rows but the last, which has the rows that remain; a file with no rows yields one
  empty block.
\<close>

function chunks_of :: "nat \<Rightarrow> 'a list \<Rightarrow> 'a list list" where
  "chunks_of n xs =
     (if n = 0 \<or> length xs \<le> n then [xs] else take n xs # chunks_of n (drop n xs))"
  by pat_completeness auto
termination
  by (relation "measure (\<lambda>(n, xs). length xs)") auto

declare chunks_of.simps [simp del]

definition read_csv_chunks :: "('row, 'g) world \<Rightarrow> string \<Rightarrow> nat \<Rightarrow> error + 'row list list" where
  "read_csv_chunks w filepath n =
     (case files w filepath of None \<Rightarrow> Inl FileNotFoundError | Some rows \<Rightarrow> Inr (chunks_of n rows))"

text \<open>
  The loop of lines 29 to 32: \<open>chunks\<close> is the list built so far, the third argument the
  blocks that the iterator has still to yield.
\<close>

fun accumulate :: "int \<Rightarrow> 'a list list \<Rightarrow> 'a list list \<Rightarrow> 'a list list" where
  "accumulate sample_size chunks [] = chunks"
| "accumulate sample_size chunks (chunk # rest) =
     (if sample_size \<le> int (length (chunks @ [chunk]) * chunk_size) then chunks @ [chunk]
      else accumulate sample_size (chunks @ [chunk]) rest)"

text \<open>
  \<open>df.sample(n=n, random_state=seed)\<close>: a negative \<open>n\<close> and an \<open>n\<close> above the number of rows
  raise \<open>ValueError\<close>. With a seed the rows are drawn from a new generator and the global
  one is left alone; with no seed they are drawn from the global generator.
\<close>

definition df_sample ::
  "'g sampler \<Rightarrow> 'row list \<Rightarrow> int \<Rightarrow> int option \<Rightarrow> 'g \<Rightarrow> (error + 'row list) \<times> 'g" where
  "df_sample lib df n seed g =
     (if n < 0 \<or> int (length df) < n then (Inl ValueError, g)
      else (case seed of
              Some sd \<Rightarrow> (Inr (map ((!) df) (fst (choice lib (random_state lib sd) (length df) (nat n)))), g)
            | None \<Rightarrow> (Inr (map ((!) df) (fst (choice lib g (length df) (nat n)))),
                       snd (choice lib g (length df) (nat n)))))"

text \<open>
  \<open>load_chess_data(filepath, sample_size)\<close>; \<open>sample_size\<close> is \<open>None\<close> or an integer, and
  \<open>if sample_size:\<close> holds for an integer other than 0.
\<close>

definition load_chess_data ::
  "'g sampler \<Rightarrow> ('row, 'g) world \<Rightarrow> string \<Rightarrow> int option \<Rightarrow> (error + 'row list) \<times> ('row, 'g) world" where
  "load_chess_data lib w filepath sample_size =
     (case sample_size of
        None \<Rightarrow> (read_csv w filepath, w)
      | Some n \<Rightarrow>
          if n = 0 then (read_csv w filepath, w)
          else (case read_csv_chunks w filepath chunk_size of
                  Inl e \<Rightarrow> (Inl e, w)
                | Inr reader \<Rightarrow>
                    (let chunks = accumulate n [] reader;
                         df = concat chunks;
                         (r, g) = df_sample lib df (min n (int (length df))) (Some 42) (np_random w)
                     in (r, w\<lparr>np_random := g\<rparr>))))"

text \<open>A sampler to run examples with: it takes the rows from a rotation of the positions.\<close>

definition rotating_sampler :: "nat sampler" where
  "rotating_sampler =
     \<lparr>random_state = (\<lambda>seed. nat \<bar>seed\<bar>),
      choice = (\<lambda>g N n. (take n (rotate g [0..<N]), Suc g))\<rparr>"

section \<open>Tables\<close>

text \<open>
  A column of a pandas table, by its dtype: an object column, whose cells are strings or
  missing (\<open>None\<close>); an integer column (int64), whose cells are whole numbers from
  \<open>- 2 ^ 63\<close> to \<open>2 ^ 63 - 1\<close> and are never missing; a float column (float64), whose
  missing value is NaN; a datetime column, whose missing value is NaT (\<open>None\<close>).
  \<open>pd.read_csv\<close> makes columns of the first three kinds: a column of whole numbers is an
  integer column when no cell is missing and a float column when one is.
\<close>

datatype 'dt column =
    ObjCol "string option list"
  | IntCol "int list"
  | NumCol "pyfloat list"
  | DateCol "'dt option list"

fun col_len :: "'dt column \<Rightarrow> nat" where
  "col_len (ObjCol cs) = length cs"
| "col_len (IntCol ns) = length ns"
| "col_len (NumCol xs) = length xs"
| "col_len (DateCol ds) = length ds"

text \<open>\<open>notna\<close>: for each row, whether the cell holds a value.\<close>

fun notna :: "'dt column \<Rightarrow> bool list" where
  "notna (ObjCol cs) = map (\<lambda>c. c \<noteq> None) cs"
| "notna (IntCol ns) = map (\<lambda>n. True) ns"
| "notna (NumCol xs) = map (\<lambda>x. x \<noteq> NaN) xs"
| "notna (DateCol ds) = map (\<lambda>d. d \<noteq> None) ds"

text \<open>
  A table: the number of rows (the length of its index) and the columns in order, by name.
  \<open>len(df)\<close> is \<open>nrows\<close>. In a well-formed table the names differ and every column has
  one cell for each row.
\<close>

record 'dt dataframe =
  nrows :: nat
  cols :: "(string \<times> 'dt column) list"

definition wf_df :: "'dt dataframe \<Rightarrow> bool" where
  "wf_df t = (distinct (map fst (cols t)) \<and> list_all (\<lambda>(name, c). col_len c = nrows t) (cols t))"

text \<open>\<open>df[name] = c\<close>: replaces the column of that name where it is, or adds it at the end.\<close>

definition setitem :: "'dt dataframe \<Rightarrow> string \<Rightarrow> 'dt column \<Rightarrow> 'dt dataframe" where
  "setitem t name c = t\<lparr>cols := AList.update name c (cols t)\<rparr>"

subsection \<open>Arithmetic of numeric columns\<close>

text \<open>
  The arithmetic of an integer column is that of int64: a result outside the range wraps
  around, silently.
\<close>

definition int64 :: "int \<Rightarrow> int" where
  "int64 v = (v + 2 ^ 63) mod 2 ^ 64 - 2 ^ 63"

text \<open>The float that an int64 number becomes in a float column: the nearest one.\<close>

definition to_float64 :: "int \<Rightarrow> pyfloat" where
  "to_float64 n = round_binary64 (of_int n)"

text \<open>
  The arithmetic of a float column is that of binary64, with the rules of NaN and the
  infinities: the result of an operation on finite values is the exact result rounded to
  the nearest binary64 number. (The sign of a zero is not modelled.)
\<close>

fun float_add :: "pyfloat \<Rightarrow> pyfloat \<Rightarrow> pyfloat" where
  "float_add NaN y = NaN"
| "float_add x NaN = NaN"
| "float_add (Finite a) (Finite b) = round_binary64 (a + b)"
| "float_add (Finite a) y = y"
| "float_add x (Finite b) = x"
| "float_add PosInf PosInf = PosInf"
| "float_add NegInf NegInf = NegInf"
| "float_add PosInf NegInf = NaN"
| "float_add NegInf PosInf = NaN"

definition float_sub :: "pyfloat \<Rightarrow> pyfloat \<Rightarrow> pyfloat" where
  "float_sub x y = float_add x (float_neg y)"

text \<open>\<open>x / c\<close> for a constant \<open>c > 0\<close>.\<close>

fun float_div :: "pyfloat \<Rightarrow> rat \<Rightarrow> pyfloat" where
  "float_div (Finite a) c = round_binary64 (a / c)"
| "float_div x c = x"

text \<open>
  The cells of a numeric column as floats: those of a float column, and the floats that
  the cells of an integer column become when pandas computes with it in float64.
\<close>

fun as_float64 :: "'dt column \<Rightarrow> pyfloat list option" where
  "as_float64 (NumCol xs) = Some xs"
| "as_float64 (IntCol ns) = Some (map to_float64 ns)"
| "as_float64 (ObjCol cs) = None"
| "as_float64 (DateCol ds) = None"

text \<open>
  A column computed from whole numbers some of which may be missing: an integer column when
  none is missing, a float column with NaN for the missing ones otherwise.
\<close>

definition whole_column :: "int option list \<Rightarrow> 'dt column" where
  "whole_column cells =
     (if list_all (\<lambda>c. c \<noteq> None) cells
      then IntCol (map (\<lambda>c. case c of Some n \<Rightarrow> n | None \<Rightarrow> 0) cells)
      else NumCol (map (\<lambda>c. case c of Some n \<Rightarrow> to_float64 n | None \<Rightarrow> NaN) cells))"

text \<open>The number in row \<open>i\<close> of a numeric column.\<close>

fun number_at :: "'dt column \<Rightarrow> nat \<Rightarrow> pyfloat" where
  "number_at (IntCol ns) i = Finite (of_int (ns ! i))"
| "number_at (NumCol xs) i = xs ! i"
| "number_at (ObjCol cs) i = NaN"
| "number_at (DateCol ds) i = NaN"

fun is_numeric :: "'dt column \<Rightarrow> bool" where
  "is_numeric (IntCol ns) = True"
| "is_numeric (NumCol xs) = True"
| "is_numeric (ObjCol cs) = False"
| "is_numeric (DateCol ds) = False"

fun float_abs :: "pyfloat \<Rightarrow> pyfloat" where
  "float_abs (Finite a) = Finite \<bar>a\<bar>"
| "float_abs NegInf = PosInf"
| "float_abs x = x"

subsection \<open>Dates\<close>

text \<open>
  The datetime functions of pandas, taken as parameters: \<open>strptime fmt s\<close> parses the text
  \<open>s\<close> with the format \<open>fmt\<close> (\<open>None\<close> where \<open>pd.to_datetime\<close> with \<open>errors='coerce'\<close> gives
  NaT), \<open>hour\<close> and \<open>day_name\<close> are the accessors of \<open>.dt\<close>. The hours are whole numbers: an
  integer column when no datetime is missing, a float column otherwise.
\<close>

record 'dt calendar =
  strptime :: "string \<Rightarrow> string \<Rightarrow> 'dt option"
  hour :: "'dt \<Rightarrow> int"
  day_name :: "'dt \<Rightarrow> string"

text \<open>\<open>pd.to_datetime(cells, format=fmt, errors='coerce')\<close> on the cells of an object column.\<close>

definition to_datetime :: "'dt calendar \<Rightarrow> string option list \<Rightarrow> string \<Rightarrow> 'dt option list" where
  "to_datetime cal cells fmt = map (\<lambda>c. case c of None \<Rightarrow> None | Some s \<Rightarrow> strptime cal fmt s) cells"

subsection \<open>Counting move numbers\<close>

text \<open>
  The number of matches of the pattern \<open>\d+\.\<close> (\<open>k = 1\<close>) and of \<open>\d+\.\.\.\<close> (\<open>k = 3\<close>) that
  \<open>re.findall\<close> finds in a text: a match starts where a run of digits starts, takes
  the whole run and needs \<open>k\<close> dots after it; the search goes on after the match, or after
  the run where there is none.
\<close>

function count_marker :: "nat \<Rightarrow> string \<Rightarrow> nat" where
  "count_marker k [] = 0"
| "count_marker k (c # cs) =
     (if is_digit c then
        (let rest = dropWhile is_digit cs
         in if take k rest = replicate k (CHR ''.'') then Suc (count_marker k (drop k rest))
            else count_marker k rest)
      else count_marker k cs)"
  by pat_completeness auto
termination
  by (relation "measure (\<lambda>(k, s). length s)")
     (auto simp: less_Suc_eq_le length_dropWhile_le intro: le_trans [OF diff_le_self])

section \<open>Preprocessor\<close>

subsection \<open>Date and time (lines 58 to 64)\<close>

text \<open>
  \<open>df['UTCDate'] + ' '\<close> raises \<open>TypeError\<close> unless the column is an object column. Adding the
  \<open>UTCTime\<close> column to the result joins the strings of each row, a missing cell gives a
  missing cell; with a column of another kind, pandas adds row by row where both cells hold
  a value, which raises \<open>TypeError\<close> as soon as there is such a row.
\<close>

definition str_cat :: "string option \<Rightarrow> string option \<Rightarrow> string option" where
  "str_cat a b = (case (a, b) of (Some x, Some y) \<Rightarrow> Some (x @ y) | _ \<Rightarrow> None)"

definition add_time :: "string option list \<Rightarrow> 'dt column \<Rightarrow> error + string option list" where
  "add_time cells c =
     (case c of
        ObjCol ts \<Rightarrow> Inr (map2 str_cat cells ts)
      | _ \<Rightarrow> if list_ex (\<lambda>(a, b). a \<noteq> None \<and> b) (zip cells (notna c)) then Inl TypeError
             else Inr (map (\<lambda>_. None) cells))"

definition combine_date_time :: "'dt calendar \<Rightarrow> 'dt dataframe \<Rightarrow> error + 'dt dataframe" where
  "combine_date_time cal df =
     (case (map_of (cols df) ''UTCDate'', map_of (cols df) ''UTCTime'') of
        (Some date_col, Some time_col) \<Rightarrow>
          (case date_col of
             ObjCol dates \<Rightarrow>
               (case add_time (map (\<lambda>d. str_cat d (Some '' '')) dates) time_col of
                  Inl e \<Rightarrow> Inl e
                | Inr texts \<Rightarrow>
                    (let date_time = to_datetime cal texts ''%Y.%m.%d %H:%M:%S'';
                         df1 = setitem df ''DateTime'' (DateCol date_time);
                         date = to_datetime cal dates ''%Y.%m.%d'';
                         df2 = setitem df1 ''Date'' (DateCol date);
                         df3 = setitem df2 ''Hour'' (whole_column (map (map_option (hour cal)) date_time));
                         df4 = setitem df3 ''DayOfWeek'' (ObjCol (map (map_option (day_name cal)) date))
                     in Inr df4))
           | _ \<Rightarrow> Inl TypeError)
      | _ \<Rightarrow> Inr df)"

subsection \<open>Time control (lines 67 to 88)\<close>

text \<open>\<open>.str.split('+').str[i]\<close>: part \<open>i\<close> of each cell, missing where the cell has no such part.\<close>

definition str_split_get :: "string option list \<Rightarrow> nat \<Rightarrow> string option list" where
  "str_split_get cells i =
     map (\<lambda>c. case c of
                 None \<Rightarrow> None
               | Some s \<Rightarrow> (let parts = split_on (CHR ''+'') s
                            in if i < length parts then Some (parts ! i) else None)) cells"

text \<open>
  \<open>.astype(float, errors='ignore')\<close> on an object column: the column of the floats (NaN for
  a missing cell) when \<open>float\<close> accepts every string; when it raises on one of them, the
  error is dropped and the result is the column as it was.
\<close>

definition astype_float_ignore :: "string option list \<Rightarrow> 'dt column" where
  "astype_float_ignore cells =
     (if list_all (\<lambda>c. case c of None \<Rightarrow> True | Some s \<Rightarrow> py_float s \<noteq> None) cells
      then NumCol (map (\<lambda>c. case c of None \<Rightarrow> NaN
                                   | Some s \<Rightarrow> (case py_float s of Some x \<Rightarrow> x | None \<Rightarrow> NaN)) cells)
      else ObjCol cells)"

text \<open>The accessor \<open>.str\<close> raises \<open>AttributeError\<close> on a column that is not an object column.\<close>

definition parse_time_control :: "'dt dataframe \<Rightarrow> error + 'dt dataframe" where
  "parse_time_control df =
     (case map_of (cols df) ''TimeControl'' of
        Some tc \<Rightarrow>
          (case tc of
             ObjCol cells \<Rightarrow>
               (let df1 = setitem df ''TimeControl_Base'' (astype_float_ignore (str_split_get cells 0));
                    df2 = setitem df1 ''TimeControl_Increment'' (astype_float_ignore (str_split_get cells 1));
                    df3 = setitem df2 ''TimeControl_Grouped'' (ObjCol (map (\<lambda>x. Some (categorize_time_control x)) cells))
                in Inr df3)
           | _ \<Rightarrow> Inl AttributeError)
      | None \<Rightarrow> Inr df)"

subsection \<open>Ratings (lines 91 to 93)\<close>

text \<open>
  On two numeric columns the sum, the half, the difference and the absolute value are
  taken row by row. On two integer columns the sum and the difference are int64 numbers,
  which wrap around; the sum becomes a float to be halved, and the absolute difference is
  an integer column. When one of the two is a float column, the cells of the other become
  floats and all is computed in binary64. When one of the columns is an object column,
  pandas computes row by row where both cells hold a value: \<open>TypeError\<close> as soon as there is
  such a row (strings cannot be halved or subtracted), and missing cells everywhere when
  there is none. Datetime columns cannot be added to each other or to numbers.
\<close>

definition elo_of_objects :: "'dt dataframe \<Rightarrow> 'dt column \<Rightarrow> 'dt column \<Rightarrow> error + 'dt dataframe" where
  "elo_of_objects df white black =
     (if list_ex (\<lambda>(a, b). a \<and> b) (zip (notna white) (notna black)) then Inl TypeError
      else (let df1 = setitem df ''AvgElo'' (ObjCol (replicate (nrows df) None));
                df2 = setitem df1 ''EloDiff'' (ObjCol (replicate (nrows df) None))
            in Inr df2))"

definition calculate_average_elo :: "'dt dataframe \<Rightarrow> error + 'dt dataframe" where
  "calculate_average_elo df =
     (case (map_of (cols df) ''WhiteElo'', map_of (cols df) ''BlackElo'') of
        (Some white, Some black) \<Rightarrow>
          (case (white, black) of
             (IntCol ws, IntCol bs) \<Rightarrow>
               (let df1 = setitem df ''AvgElo''
                            (NumCol (map2 (\<lambda>w b. float_div (to_float64 (int64 (w + b))) 2) ws bs));
                    df2 = setitem df1 ''EloDiff'' (IntCol (map2 (\<lambda>w b. int64 \<bar>int64 (w - b)\<bar>) ws bs))
                in Inr df2)
           | _ \<Rightarrow>
               (case (as_float64 white, as_float64 black) of
                  (Some ws, Some bs) \<Rightarrow>
                    (let df1 = setitem df ''AvgElo'' (NumCol (map2 (\<lambda>w b. float_div (float_add w b) 2) ws bs));
                         df2 = setitem df1 ''EloDiff'' (NumCol (map2 (\<lambda>w b. float_abs (float_sub w b)) ws bs))
                     in Inr df2)
                | _ \<Rightarrow>
                    (case (white, black) of
                       (ObjCol cs, _) \<Rightarrow> elo_of_objects df white black
                     | (_, ObjCol cs) \<Rightarrow> elo_of_objects df white black
                     | _ \<Rightarrow> Inl TypeError)))
      | _ \<Rightarrow> Inr df)"

subsection \<open>Result (lines 96 to 99)\<close>

text \<open>
  \<open>(col == s).astype(int)\<close>: the integer column of 1 where the cell is the string \<open>s\<close> and 0
  elsewhere; a cell of a column that is not an object column is never equal to a string.
\<close>

fun eq_str :: "'dt column \<Rightarrow> string \<Rightarrow> bool list" where
  "eq_str (ObjCol cs) s = map (\<lambda>c. c = Some s) cs"
| "eq_str (IntCol ns) s = map (\<lambda>_. False) ns"
| "eq_str (NumCol xs) s = map (\<lambda>_. False) xs"
| "eq_str (DateCol ds) s = map (\<lambda>_. False) ds"

definition astype_int :: "bool list \<Rightarrow> 'dt column" where
  "astype_int bs = IntCol (map (\<lambda>b. if b then 1 else 0) bs)"

definition parse_result :: "'dt dataframe \<Rightarrow> error + 'dt dataframe" where
  "parse_result df =
     (case map_of (cols df) ''Result'' of
        Some result \<Rightarrow>
          (let df1 = setitem df ''WhiteWins'' (astype_int (eq_str result ''1-0''));
               df2 = setitem df1 ''BlackWins'' (astype_int (eq_str result ''0-1''));
               df3 = setitem df2 ''Draw'' (astype_int (eq_str result ''1/2-1/2''))
           in Inr df3)
      | None \<Rightarrow> Inr df)"

subsection \<open>Move count (lines 102 and 103)\<close>

text \<open>
  \<open>.str.count(pattern)\<close> gives an integer column when no cell of \<open>AN\<close> is missing and a float
  column with NaN for the missing cells otherwise; the two columns of counts are of the
  same kind, and their sum is taken in int64 or in binary64.
\<close>

definition move_counts :: "string option list \<Rightarrow> 'dt column" where
  "move_counts cells =
     (if list_all (\<lambda>c. c \<noteq> None) cells
      then IntCol (map (\<lambda>c. case c of
                                Some s \<Rightarrow> int64 (int (count_marker 1 s) + int (count_marker 3 s))
                              | None \<Rightarrow> 0) cells)
      else NumCol (map (\<lambda>c. case c of
                                Some s \<Rightarrow> float_add (to_float64 (int (count_marker 1 s)))
                                                   (to_float64 (int (count_marker 3 s)))
                              | None \<Rightarrow> NaN) cells))"

definition extract_move_count :: "'dt dataframe \<Rightarrow> error + 'dt dataframe" where
  "extract_move_count df =
     (case map_of (cols df) ''AN'' of
        Some an \<Rightarrow>
          (case an of
             ObjCol cells \<Rightarrow>
               Inr (setitem df ''MoveCount'' (move_counts cells))
           | _ \<Rightarrow> Inl AttributeError)
      | None \<Rightarrow> Inr df)"

subsection \<open>\<open>preprocess_data\<close>\<close>

text \<open>
  Tables are objects: a heap is the list of the tables that exist, and a reference to a
  table is its position in the list. \<open>df.copy()\<close> makes a new table with the same rows and
  columns and returns the reference to it.
\<close>

type_synonym addr = nat

type_synonym 'dt heap = "'dt dataframe list"

definition df_copy :: "'dt heap \<Rightarrow> addr \<Rightarrow> addr \<times> 'dt heap" where
  "df_copy h a = (length h, h @ [h ! a])"

text \<open>
  One block of statements on the table that \<open>d\<close> refers to, after the blocks before it:
  nothing happens once an exception is raised; the assignments of the block are written to
  the table at \<open>d\<close>.
\<close>

definition run_block ::
  "('dt dataframe \<Rightarrow> error + 'dt dataframe) \<Rightarrow> addr \<Rightarrow> error option \<times> 'dt heap \<Rightarrow> error option \<times> 'dt heap" where
  "run_block block d st =
     (case st of
        (Some e, h) \<Rightarrow> (Some e, h)
      | (None, h) \<Rightarrow> (case block (h ! d) of Inl e \<Rightarrow> (Some e, h) | Inr t \<Rightarrow> (None, h[d := t])))"

text \<open>
  \<open>preprocess_data(df)\<close>, for a reference \<open>df\<close> into the heap \<open>h\<close>: the result is the
  reference that the function returns, or the exception that it raises, and the heap
  after the call. The local variable \<open>df\<close> refers to the copy from line 55 on.
\<close>

definition preprocess_data ::
  "'dt calendar \<Rightarrow> 'dt heap \<Rightarrow> addr \<Rightarrow> (error + addr) \<times> 'dt heap" where
  "preprocess_data cal h df =
     (let (d, h0) = df_copy h df;
          st1 = run_block (combine_date_time cal) d (None, h0);
          st2 = run_block parse_time_control d st1;
          st3 = run_block calculate_average_elo d st2;
          st4 = run_block parse_result d st3;
          st5 = run_block extract_move_count d st4
      in (case fst st5 of None \<Rightarrow> Inr d | Some e \<Rightarrow> Inl e, snd st5))"

text \<open>
  The kinds of the columns in the file format that the program reads: the text fields are
  object columns and the ratings numeric columns (integer or float).
\<close>

definition documented_kinds :: "'dt dataframe \<Rightarrow> bool" where
  "documented_kinds t =
     (list_all (\<lambda>name. case map_of (cols t) name of Some (ObjCol _) \<Rightarrow> True | Some _ \<Rightarrow> False | None \<Rightarrow> True)
        [''UTCDate'', ''UTCTime'', ''TimeControl'', ''AN'']
      \<and> list_all (\<lambda>name. case map_of (cols t) name of Some c \<Rightarrow> is_numeric c | None \<Rightarrow> True)
        [''WhiteElo'', ''BlackElo''])"

text \<open>The names of the columns that \<open>preprocess_data\<close> assigns.\<close>

definition derived_columns :: "string list" where
  "derived_columns =
     [''DateTime'', ''Date'', ''Hour'', ''DayOfWeek'',
      ''TimeControl_Base'', ''TimeControl_Increment'', ''TimeControl_Grouped'',
      ''AvgElo'', ''EloDiff'', ''WhiteWins'', ''BlackWins'', ''Draw'', ''MoveCount'']"

subsection \<open>A calendar to run examples with\<close>

text \<open>
  A stand-in for the datetime parser of pandas in the examples: it reads the zero-padded
  forms \<open>YYYY.MM.DD\<close> and \<open>YYYY.MM.DD HH:MM:SS\<close> of a date of the Gregorian calendar, and
  nothing else (pandas reads more forms, a month or a day of one digit for one). A datetime
  is the list of the year, month, day, hour, minute and second. No property below depends
  on this calendar: all of them hold for every calendar.
\<close>

definition read_int :: "string \<Rightarrow> int option" where
  "read_int s = (if s \<noteq> [] \<and> list_all is_digit s then Some (int_of_digits s) else None)"

definition days_in_month :: "int \<Rightarrow> int \<Rightarrow> int" where
  "days_in_month y m =
     (if m = 2 then (if y mod 4 = 0 \<and> (y mod 100 \<noteq> 0 \<or> y mod 400 = 0) then 29 else 28)
      else if m = 4 \<or> m = 6 \<or> m = 9 \<or> m = 11 then 30 else 31)"

definition read_date :: "string \<Rightarrow> int list option" where
  "read_date s =
     (case (read_int (take 4 s), read_int (take 2 (drop 5 s)), read_int (take 2 (drop 8 s))) of
        (Some y, Some m, Some d) \<Rightarrow>
          if length s = 10 \<and> take 1 (drop 4 s) = ''.'' \<and> take 1 (drop 7 s) = ''.''
             \<and> 1 \<le> m \<and> m \<le> 12 \<and> 1 \<le> d \<and> d \<le> days_in_month y m
          then Some [y, m, d] else None
      | _ \<Rightarrow> None)"

definition read_time :: "string \<Rightarrow> int list option" where
  "read_time s =
     (case (read_int (take 2 s), read_int (take 2 (drop 3 s)), read_int (take 2 (drop 6 s))) of
        (Some h, Some m, Some sec) \<Rightarrow>
          if length s = 8 \<and> take 1 (drop 2 s) = '':'' \<and> take 1 (drop 5 s) = '':''
             \<and> h \<le> 23 \<and> m \<le> 59 \<and> sec \<le> 59
          then Some [h, m, sec] else None
      | _ \<Rightarrow> None)"

definition weekday_name :: "int list \<Rightarrow> string" where
  "weekday_name dt =
     (case dt of
        y # m # d # _ \<Rightarrow>
          (let y' = (if m < 3 then y - 1 else y);
               t = [0, 3, 2, 5, 0, 3, 5, 1, 4, 6, 2, 4] ! nat (m - 1)
           in [''Sunday'', ''Monday'', ''Tuesday'', ''Wednesday'', ''Thursday'', ''Friday'', ''Saturday'']
                ! nat ((y' + y' div 4 - y' div 100 + y' div 400 + t + d) mod 7))
      | _ \<Rightarrow> [])"

definition plain_calendar :: "int list calendar" where
  "plain_calendar =
     \<lparr>strptime = (\<lambda>fmt s.
         if fmt = ''%Y.%m.%d'' then map_option (\<lambda>d. d @ [0, 0, 0]) (read_date s)
         else if fmt = ''%Y.%m.%d %H:%M:%S'' \<and> take 1 (drop 10 s) = '' '' then
           (case (read_date (take 10 s), read_time (drop 11 s)) of
              (Some d, Some t) \<Rightarrow> Some (d @ t) | _ \<Rightarrow> None)
         else None),
      hour = (\<lambda>dt. case dt of [y, m, d, h, mi, sec] \<Rightarrow> h | _ \<Rightarrow> 0),
      day_name = weekday_name\<rparr>"

section \<open>Examples\<close>

text \<open>A file of four rows and a generator state, to run the loader on.\<close>

definition example_world :: "(nat, nat) world" where
  "example_world =
     \<lparr>files = (\<lambda>p. if p = ''chess_games.csv'' then Some [10, 20, 30, 40] else None),
      np_random = 7\<rparr>"

text \<open>
  A table of four games; the second has no rating for White and no time control, so the
  ratings of White are a float column and those of Black an integer column.
\<close>

definition example_games :: "int list dataframe" where
  "example_games =
     \<lparr>nrows = 4,
      cols =
        [(''WhiteElo'', NumCol [Finite 1500, NaN, Finite 1800, Finite 2100]),
         (''BlackElo'', IntCol [1520, 1400, 1700, 2100]),
         (''Result'', ObjCol [Some ''1/2-1/2'', Some ''1-0'', Some ''0-1'', Some ''*'']),
         (''TimeControl'', ObjCol [Some ''300+3'', None, Some ''60+0'', None]),
         (''UTCDate'', ObjCol [Some ''2016.07.01'', Some ''2016.07.02'', Some ''2016.02.30'', None]),
         (''UTCTime'', ObjCol [Some ''12:30:00'', Some ''25:00:00'', Some ''08:15:59'', Some ''00:00:00'']),
         (''ECO'', ObjCol [Some ''C50'', Some ''B12'', None, Some ''A00'']),
         (''AN'', ObjCol [Some ''1. e4 e5 2. Nf3 Nc6 1/2-1/2'', Some ''1. d4 1-0'', None, Some []])]\<rparr>"

text \<open>
  A table with the same columns and no rows, as \<open>pd.read_csv\<close> makes it from a file that has
  the header only: all its columns are object columns.
\<close>

definition empty_games :: "int list dataframe" where
  "empty_games =
     \<lparr>nrows = 0,
      cols =
        [(''WhiteElo'', ObjCol []), (''BlackElo'', ObjCol []), (''Result'', ObjCol []),
         (''TimeControl'', ObjCol []), (''UTCDate'', ObjCol []), (''UTCTime'', ObjCol []),
         (''ECO'', ObjCol []), (''AN'', ObjCol [])]\<rparr>"

text \<open>The table of one game.\<close>

definition one_game :: "int list dataframe" where
  "one_game =
     \<lparr>nrows = 1,
      cols =
        [(''WhiteElo'', IntCol [1500]),
         (''BlackElo'', IntCol [1520]),
         (''Result'', ObjCol [Some ''1/2-1/2'']),
         (''TimeControl'', ObjCol [Some ''300+3'']),
         (''UTCDate'', ObjCol [Some ''2016.07.01'']),
         (''UTCTime'', ObjCol [Some ''12:30:00'']),
         (''AN'', ObjCol [Some ''1. e4 e5 2. Nf3 Nc6 1/2-1/2''])]\<rparr>"

text \<open>
  Two tables of one game with ratings at which the arithmetic of the columns is not exact:
  the largest int64 number and 1, and the floats nearest to 0.1 and to 0.2.
\<close>

definition overflow_game :: "int list dataframe" where
  "overflow_game =
     \<lparr>nrows = 1,
      cols = [(''WhiteElo'', IntCol [9223372036854775807]), (''BlackElo'', IntCol [1])]\<rparr>"

definition rounding_game :: "int list dataframe" where
  "rounding_game =
     \<lparr>nrows = 1,
      cols = [(''WhiteElo'', NumCol [Finite (3602879701896397 / 36028797018963968)]),
              (''BlackElo'', NumCol [Finite (3602879701896397 / 18014398509481984)])]\<rparr>"

section \<open>Properties of the time-control categories\<close>

lemma split_on_first: "\<exists>ps. split_on sep s = takeWhile (\<lambda>c. c \<noteq> sep) s # ps"
  by (induction s) (auto split: list.splits)

lemma categorize_time_control_Some:
  "categorize_time_control (Some s) =
     (case py_float (takeWhile (\<lambda>c. c \<noteq> CHR ''+'') s) of
        None \<Rightarrow> ''Unknown''
      | Some base_time \<Rightarrow>
          if float_lt base_time 180 then ''Bullet (<3min)''
          else if float_lt base_time 600 then ''Blitz (3-10min)''
          else if float_lt base_time 3600 then ''Rapid (10-60min)''
          else ''Classical (>60min)'')"
proof -
  from split_on_first obtain ps where "split_on (CHR ''+'') s = takeWhile (\<lambda>c. c \<noteq> CHR ''+'') s # ps"
    by blast
  then show ?thesis by (simp add: categorize_time_control_def)
qed

lemma categorize_time_control_labels:
  "categorize_time_control x \<in>
     set [''Unknown'', ''Bullet (<3min)'', ''Blitz (3-10min)'', ''Rapid (10-60min)'', ''Classical (>60min)'']"
proof (cases x)
  case None
  then show ?thesis by (simp add: categorize_time_control_def)
next
  case (Some s)
  show ?thesis
    unfolding Some categorize_time_control_Some
    by (cases "py_float (takeWhile (\<lambda>c. c \<noteq> CHR ''+'') s)") simp_all
qed

lemma boundary_bullet: "categorize_time_control (Some ''179.999+0'') = ''Bullet (<3min)''"
  by code_simp

lemma boundary_blitz_low: "categorize_time_control (Some ''180+0'') = ''Blitz (3-10min)''"
  by code_simp

lemma boundary_blitz_high: "categorize_time_control (Some ''599.999+0'') = ''Blitz (3-10min)''"
  by code_simp

lemma boundary_rapid_low: "categorize_time_control (Some ''600+0'') = ''Rapid (10-60min)''"
  by code_simp

lemma boundary_rapid_high: "categorize_time_control (Some ''3599.999+0'') = ''Rapid (10-60min)''"
  by code_simp

lemma boundary_classical: "categorize_time_control (Some ''3600+0'') = ''Classical (>60min)''"
  by code_simp

text \<open>
  \<open>float\<close> removes a no-break space and a next-line character at the ends of its argument,
  and refuses an argument that starts with the separator 31.
\<close>

lemma py_float_padding: "py_float [CHR 0xA0, CHR ''6'', CHR ''0'', CHR 0x85] = Some (Finite 60)"
  by code_simp

lemma py_float_separator: "py_float [CHR 0x1F, CHR ''6'', CHR ''0''] = None"
  by code_simp

lemma categorize_time_control_separator:
  "categorize_time_control (Some [CHR 0x1F, CHR ''6'', CHR ''0'', CHR ''+'', CHR ''0'']) = ''Unknown''"
  by code_simp

text \<open>
  Claim C1. \<open>categorize_time_control\<close> returns one of the five labels for every cell, a
  missing one or any string, and raises nothing (it is a function into the strings: the
  \<open>try\<close> block turns every exception into \<open>Unknown\<close>). A missing cell and a string whose
  part before the first \<open>+\<close> is refused by \<open>float\<close> give \<open>Unknown\<close>. When that part is read
  as the finite float \<open>b\<close>, the label follows the half-open intervals: Bullet below 180,
  Blitz from 180 and below 600, Rapid from 600 and below 3600, Classical from 3600. The six
  values at the edges fall where the intervals say.
\<close>

theorem categorize_time_control_total:
  "categorize_time_control x \<in>
     set [''Unknown'', ''Bullet (<3min)'', ''Blitz (3-10min)'', ''Rapid (10-60min)'', ''Classical (>60min)'']
   \<and> categorize_time_control None = ''Unknown''
   \<and> (py_float (takeWhile (\<lambda>c. c \<noteq> CHR ''+'') s) = None \<longrightarrow>
        categorize_time_control (Some s) = ''Unknown'')
   \<and> (py_float (takeWhile (\<lambda>c. c \<noteq> CHR ''+'') s) = Some (Finite b) \<longrightarrow>
        categorize_time_control (Some s) =
          (if b < 180 then ''Bullet (<3min)''
           else if b < 600 then ''Blitz (3-10min)''
           else if b < 3600 then ''Rapid (10-60min)''
           else ''Classical (>60min)''))
   \<and> categorize_time_control (Some ''179.999+0'') = ''Bullet (<3min)''
   \<and> categorize_time_control (Some ''180+0'') = ''Blitz (3-10min)''
   \<and> categorize_time_control (Some ''599.999+0'') = ''Blitz (3-10min)''
   \<and> categorize_time_control (Some ''600+0'') = ''Rapid (10-60min)''
   \<and> categorize_time_control (Some ''3599.999+0'') = ''Rapid (10-60min)''
   \<and> categorize_time_control (Some ''3600+0'') = ''Classical (>60min)''"
proof -
  have "categorize_time_control None = ''Unknown''"
    by (simp add: categorize_time_control_def)
  moreover have "py_float (takeWhile (\<lambda>c. c \<noteq> CHR ''+'') s) = None \<longrightarrow>
      categorize_time_control (Some s) = ''Unknown''"
    by (simp add: categorize_time_control_Some)
  moreover have "py_float (takeWhile (\<lambda>c. c \<noteq> CHR ''+'') s) = Some (Finite b) \<longrightarrow>
      categorize_time_control (Some s) =
        (if b < 180 then ''Bullet (<3min)''
         else if b < 600 then ''Blitz (3-10min)''
         else if b < 3600 then ''Rapid (10-60min)''
         else ''Classical (>60min)'')"
    by (simp add: categorize_time_control_Some)
  ultimately show ?thesis
    using categorize_time_control_labels[of x] boundary_bullet boundary_blitz_low
          boundary_blitz_high boundary_rapid_low boundary_rapid_high boundary_classical
    by blast
qed

lemma py_float_example: "py_float ''599.999'' = Some (Finite (2638823508615889 / 4398046511104))"
  by code_simp

lemma py_float_dash: "py_float ''-'' = None"
  by code_simp

theorem categorize_time_control_total_witness:
  "py_float (takeWhile (\<lambda>c. c \<noteq> CHR ''+'') ''599.999+5'') = Some (Finite (2638823508615889 / 4398046511104))
   \<and> categorize_time_control (Some ''599.999+5'') = ''Blitz (3-10min)''
   \<and> py_float (takeWhile (\<lambda>c. c \<noteq> CHR ''+'') ''-'') = None
   \<and> categorize_time_control (Some ''-'') = ''Unknown''"
proof -
  have p: "py_float (takeWhile (\<lambda>c. c \<noteq> CHR ''+'') ''599.999+5'') = Some (Finite (2638823508615889 / 4398046511104))"
    using py_float_example by simp
  have q: "py_float (takeWhile (\<lambda>c. c \<noteq> CHR ''+'') ''-'') = None"
    using py_float_dash by simp
  from p categorize_time_control_total[of None "''599.999+5''" "2638823508615889 / 4398046511104"]
  have "categorize_time_control (Some ''599.999+5'') = ''Blitz (3-10min)''" by simp
  moreover from q categorize_time_control_total[of None "''-''" 0]
  have "categorize_time_control (Some ''-'') = ''Unknown''" by blast
  ultimately show ?thesis using p q by blast
qed

section \<open>Properties of the opening categories\<close>

lemma get_opening_category_nonempty:
  "s \<noteq> [] \<Longrightarrow>
   get_opening_category (Some s) =
     Inr (case map_of categories (to_upper (hd s)) of Some c \<Rightarrow> c | None \<Rightarrow> ''Other'')"
  by (cases s) (simp_all add: get_opening_category_def upper_def)

lemma get_opening_category_None: "get_opening_category None = Inr ''Unknown''"
  by (simp add: get_opening_category_def)

text \<open>
  Claim C2. The claim says that \<open>get_opening_category\<close> never raises and that the empty
  string gives \<open>Other\<close>. On the empty string the index \<open>eco_code[0]\<close> raises \<open>IndexError\<close>:
  the function returns no category there.
\<close>

theorem get_opening_category_empty_raises:
  "get_opening_category (Some []) = Inl IndexError"
  by (simp add: get_opening_category_def upper_def)

section \<open>Properties of the loader\<close>

lemma concat_chunks_of: "concat (chunks_of n xs) = xs"
  by (induction n xs rule: chunks_of.induct) (subst chunks_of.simps, auto)

lemma chunks_of_ne: "chunks_of n xs \<noteq> []"
  by (subst chunks_of.simps) auto

lemma concat_take_chunks_of:
  "0 < n \<Longrightarrow> concat (take k (chunks_of n xs)) = take (k * n) xs"
proof (induction n xs arbitrary: k rule: chunks_of.induct)
  case (1 n xs)
  show ?case
  proof (cases k)
    case 0
    then show ?thesis by simp
  next
    case (Suc j)
    show ?thesis
    proof (cases "length xs \<le> n")
      case True
      then have "length xs \<le> Suc j * n" by (simp add: trans_le_add1)
      with True Suc show ?thesis by (subst chunks_of.simps) simp
    next
      case False
      with 1 have "concat (take j (chunks_of n (drop n xs))) = take (j * n) (drop n xs)"
        by simp
      with False Suc 1(2) show ?thesis
        by (subst chunks_of.simps) (simp add: take_add)
    qed
  qed
qed

lemma accumulate_shape:
  "rest \<noteq> [] \<Longrightarrow> int (length chunks * chunk_size) < n \<Longrightarrow>
   \<exists>j. 1 \<le> j \<and> j \<le> length rest \<and> accumulate n chunks rest = chunks @ take j rest
       \<and> (n \<le> int ((length chunks + j) * chunk_size) \<or> j = length rest)
       \<and> int ((length chunks + j - 1) * chunk_size) < n"
proof (induction rest arbitrary: chunks)
  case Nil
  then show ?case by simp
next
  case (Cons c rest)
  show ?case
  proof (cases "n \<le> int (length (chunks @ [c]) * chunk_size)")
    case True
    then have "accumulate n chunks (c # rest) = chunks @ take 1 (c # rest)" by simp
    with True Cons.prems show ?thesis by (intro exI[of _ 1]) simp
  next
    case False
    show ?thesis
    proof (cases rest)
      case Nil
      with False Cons.prems show ?thesis by (intro exI[of _ 1]) simp
    next
      case (Cons d ds)
      with False Cons.IH[of "chunks @ [c]"] obtain j where
        j: "1 \<le> j" "j \<le> length rest" "accumulate n (chunks @ [c]) rest = (chunks @ [c]) @ take j rest"
           "n \<le> int ((length (chunks @ [c]) + j) * chunk_size) \<or> j = length rest"
           "int ((length (chunks @ [c]) + j - 1) * chunk_size) < n"
        by auto
      with False show ?thesis
        by (intro exI[of _ "Suc j"]) auto
    qed
  qed
qed

text \<open>The rows accumulated by the loop: whole blocks from the start of the file.\<close>

lemma accumulated_rows:
  assumes "0 < n"
  shows "\<exists>k. 1 \<le> k \<and> concat (accumulate n [] (chunks_of chunk_size rows)) = take (k * chunk_size) rows
             \<and> (n \<le> int (length (take (k * chunk_size) rows)) \<or> take (k * chunk_size) rows = rows)
             \<and> int ((k - 1) * chunk_size) < n"
proof -
  have cs: "0 < chunk_size" by (simp add: chunk_size_def)
  from accumulate_shape[OF chunks_of_ne, of "[]" n chunk_size rows] assms obtain j where
    j: "1 \<le> j" "j \<le> length (chunks_of chunk_size rows)"
       "accumulate n [] (chunks_of chunk_size rows) = take j (chunks_of chunk_size rows)"
       "n \<le> int (j * chunk_size) \<or> j = length (chunks_of chunk_size rows)"
       "int ((j - 1) * chunk_size) < n"
    by auto
  have acc: "concat (accumulate n [] (chunks_of chunk_size rows)) = take (j * chunk_size) rows"
    using j(3) concat_take_chunks_of[OF cs] by simp
  have "n \<le> int (length (take (j * chunk_size) rows)) \<or> take (j * chunk_size) rows = rows"
  proof (cases "j = length (chunks_of chunk_size rows)")
    case True
    then have "take j (chunks_of chunk_size rows) = chunks_of chunk_size rows" by simp
    then have "take (j * chunk_size) rows = rows"
      using concat_take_chunks_of[OF cs, of j rows] concat_chunks_of[of chunk_size rows] by simp
    then show ?thesis by simp
  next
    case False
    with j(4) have le: "n \<le> int (j * chunk_size)" by simp
    show ?thesis
    proof (cases "j * chunk_size \<le> length rows")
      case True
      with le show ?thesis by simp
    next
      case False
      then show ?thesis by simp
    qed
  qed
  with j(1) j(5) acc show ?thesis by blast
qed

subsection \<open>The loader on examples\<close>

text \<open>
  A file of 250000 rows and a sample size of 150000: two blocks are read. A file of 150000
  rows and a sample size of 180000: the two blocks of the file are read.
\<close>

lemma accumulate_two_blocks:
  "accumulate 150000 [] (chunks_of chunk_size (replicate 250000 x))
     = [replicate 100000 x, replicate 100000 x]"
  by (simp add: chunks_of.simps[of _ "replicate _ _"] chunk_size_def)

lemma accumulate_short_file:
  "accumulate 180000 [] (chunks_of chunk_size (replicate 150000 x))
     = [replicate 100000 x, replicate 50000 x]"
  by (simp add: chunks_of.simps[of _ "replicate _ _"] chunk_size_def)

lemma load_chess_data_example:
  "fst (load_chess_data rotating_sampler example_world ''chess_games.csv'' (Some 3)) = Inr [30, 40, 10]"
proof -
  have c: "chunks_of chunk_size [10, 20, 30, 40 :: nat] = [[10, 20, 30, 40]]"
    by (simp add: chunks_of.simps chunk_size_def)
  have a: "accumulate 3 [] [[10, 20, 30, 40 :: nat]] = [[10, 20, 30, 40]]"
    by (simp add: chunk_size_def)
  have s: "df_sample rotating_sampler [10, 20, 30, 40 :: nat] 3 (Some 42) 7 = (Inr [30, 40, 10], 7)"
    by code_simp
  show ?thesis
    by (simp add: load_chess_data_def read_csv_chunks_def example_world_def c a s)
qed

text \<open>A negative sample size: \<open>df.sample\<close> raises.\<close>

lemma load_chess_data_negative:
  "files w filepath = Some rows \<Longrightarrow> n < 0 \<Longrightarrow>
   fst (load_chess_data lib w filepath (Some n)) = Inl ValueError"
  by (simp add: load_chess_data_def read_csv_chunks_def df_sample_def Let_def split: prod.splits)

lemma valid_rotating_sampler: "valid_sampler rotating_sampler"
  by (auto simp: valid_sampler_def rotating_sampler_def dest: in_set_takeD)

text \<open>
  Claim C4. With a sample size \<open>n > 0\<close> and a file that exists, the loader returns rows
  drawn from the rows accumulated, which are the first \<open>k\<close> blocks of the file, \<open>k \<ge> 1\<close>:
  the accumulation has stopped with \<open>n\<close> rows or more, or with the whole file; it has not
  gone on after \<open>n\<close> rows were reached (the \<open>k - 1\<close> blocks before the last one, all full,
  hold fewer than \<open>n\<close> rows); the rows returned stand at different positions of the
  accumulated rows, and there are \<open>min n\<close> (number of accumulated rows) of them.
\<close>

theorem load_chess_data_sample:
  assumes "valid_sampler lib" and "files w filepath = Some rows" and "0 < n"
  shows "\<exists>k idx.
           1 \<le> k
           \<and> fst (load_chess_data lib w filepath (Some n)) = Inr (map ((!) (take (k * chunk_size) rows)) idx)
           \<and> distinct idx \<and> set idx \<subseteq> {..<length (take (k * chunk_size) rows)}
           \<and> int (length idx) = min n (int (length (take (k * chunk_size) rows)))
           \<and> (n \<le> int (length (take (k * chunk_size) rows)) \<or> take (k * chunk_size) rows = rows)
           \<and> int ((k - 1) * chunk_size) < n"
proof -
  from accumulated_rows[OF assms(3), of rows] obtain k where
    k: "1 \<le> k" "concat (accumulate n [] (chunks_of chunk_size rows)) = take (k * chunk_size) rows"
       "n \<le> int (length (take (k * chunk_size) rows)) \<or> take (k * chunk_size) rows = rows"
       "int ((k - 1) * chunk_size) < n"
    by blast
  let ?df = "take (k * chunk_size) rows"
  let ?m = "min n (int (length ?df))"
  let ?idx = "fst (choice lib (random_state lib 42) (length ?df) (nat ?m))"
  have m: "0 \<le> ?m" "?m \<le> int (length ?df)" "nat ?m \<le> length ?df" using assms(3) by auto
  with assms(1) have idx: "length ?idx = nat ?m" "distinct ?idx" "set ?idx \<subseteq> {..<length ?df}"
    unfolding valid_sampler_def by blast+
  have "fst (load_chess_data lib w filepath (Some n)) = Inr (map ((!) ?df) ?idx)"
    using assms(2,3) k(2) m
    by (simp add: load_chess_data_def read_csv_chunks_def df_sample_def Let_def split: prod.splits)
  moreover have "int (length ?idx) = ?m" using idx(1) m(1) by simp
  ultimately show ?thesis using k(1,3,4) idx(2,3) by blast
qed

theorem load_chess_data_sample_witness:
  "valid_sampler rotating_sampler
   \<and> files example_world ''chess_games.csv'' = Some [10, 20, 30, 40]
   \<and> (\<exists>k idx.
         1 \<le> k
         \<and> fst (load_chess_data rotating_sampler example_world ''chess_games.csv'' (Some 3))
             = Inr (map ((!) (take (k * chunk_size) [10, 20, 30, 40])) idx)
         \<and> distinct idx \<and> set idx \<subseteq> {..<length (take (k * chunk_size) [10, 20, 30, 40 :: nat])}
         \<and> int (length idx) = min 3 (int (length (take (k * chunk_size) [10, 20, 30, 40 :: nat])))
         \<and> (3 \<le> int (length (take (k * chunk_size) [10, 20, 30, 40 :: nat]))
              \<or> take (k * chunk_size) [10, 20, 30, 40 :: nat] = [10, 20, 30, 40])
         \<and> int ((k - 1) * chunk_size) < 3)"
proof -
  have f: "files example_world ''chess_games.csv'' = Some [10, 20, 30, 40]"
    by (simp add: example_world_def)
  have n: "(0::int) < 3" by simp
  from load_chess_data_sample[OF valid_rotating_sampler f n] valid_rotating_sampler f
  show ?thesis by blast
qed

text \<open>
  Claim C5. The rows that the loader returns depend on the contents of the file and on the
  sample size only: two calls in worlds that agree on the file, whatever the state of the
  global random generator and the other files, return the same rows in the same order. A
  call leaves the world as it was (the sample is drawn from a generator of its own, made
  from the seed 42).
\<close>

theorem load_chess_data_reproducible:
  assumes "files w1 filepath = files w2 filepath"
  shows "fst (load_chess_data lib w1 filepath sample_size) = fst (load_chess_data lib w2 filepath sample_size)
         \<and> snd (load_chess_data lib w1 filepath sample_size) = w1"
  using assms
  by (auto simp: load_chess_data_def read_csv_def read_csv_chunks_def df_sample_def Let_def
           split: option.splits sum.splits prod.splits)

theorem load_chess_data_reproducible_witness:
  "files example_world ''chess_games.csv'' = files (example_world\<lparr>np_random := 99\<rparr>) ''chess_games.csv''
   \<and> fst (load_chess_data rotating_sampler example_world ''chess_games.csv'' (Some 3))
       = fst (load_chess_data rotating_sampler (example_world\<lparr>np_random := 99\<rparr>) ''chess_games.csv'' (Some 3))
   \<and> snd (load_chess_data rotating_sampler example_world ''chess_games.csv'' (Some 3)) = example_world"
proof -
  have f: "files example_world ''chess_games.csv'' = files (example_world\<lparr>np_random := 99\<rparr>) ''chess_games.csv''"
    by simp
  from load_chess_data_reproducible[OF f, of rotating_sampler "Some 3"] f
  show ?thesis by blast
qed

text \<open>
  Claim C10. With the sample size 0 the loader does what it does with no sample size: it
  reads the whole file and returns all its rows (or raises, when there is no file), and
  draws no sample.
\<close>

theorem load_chess_data_zero_sample:
  "load_chess_data lib w filepath (Some 0) = load_chess_data lib w filepath None
   \<and> load_chess_data lib w filepath (Some 0) =
       (case files w filepath of None \<Rightarrow> Inl FileNotFoundError | Some rows \<Rightarrow> Inr rows, w)"
  by (simp add: load_chess_data_def read_csv_def)

section \<open>Arithmetic that is exact\<close>

text \<open>
  A whole number of magnitude \<open>2 ^ 53\<close> at most, and its half, are binary64 numbers:
  rounding leaves them as they are. An integer within the range of int64 is not wrapped.
\<close>

lemma pow2_powi: "pow2 e = 2 powi e"
proof (cases "0 \<le> e")
  case True
  then show ?thesis by (simp add: pow2_def power_int_def)
next
  case False
  then have "pow2 e = 1 / 2 ^ nat (- e)" by (simp add: pow2_def)
  also have "\<dots> = (1 / 2) ^ nat (- e)" by (simp only: power_one_over)
  also have "\<dots> = inverse 2 ^ nat (- e)" by (simp only: inverse_eq_divide)
  also have "\<dots> = 2 powi e" using False by (simp only: power_int_def if_False)
  finally show ?thesis .
qed

lemma pow2_pos: "0 < pow2 e"
  by (simp add: pow2_powi)

lemma pow2_add: "pow2 (a + b) = pow2 a * pow2 b"
  by (simp add: pow2_powi power_int_add)

lemma pow2_le_iff: "pow2 a \<le> pow2 b \<longleftrightarrow> a \<le> b"
proof
  assume "pow2 a \<le> pow2 b"
  show "a \<le> b"
  proof (rule ccontr)
    assume "\<not> a \<le> b"
    then have "b < a" by simp
    then have "pow2 b < pow2 a"
      unfolding pow2_powi by (intro power_int_strict_increasing) simp_all
    with \<open>pow2 a \<le> pow2 b\<close> show False by simp
  qed
next
  assume "a \<le> b"
  then show "pow2 a \<le> pow2 b"
    unfolding pow2_powi by (intro power_int_increasing) simp_all
qed

lemma pow2_less_iff: "pow2 a < pow2 b \<longleftrightarrow> a < b"
proof -
  have "pow2 a < pow2 b \<longleftrightarrow> \<not> pow2 b \<le> pow2 a" by (simp only: not_le)
  also have "\<dots> \<longleftrightarrow> \<not> b \<le> a" by (simp only: pow2_le_iff)
  also have "\<dots> \<longleftrightarrow> a < b" by (simp only: not_le)
  finally show ?thesis .
qed

lemma pow2_nat: "pow2 (int n) = 2 ^ n"
  by (simp add: pow2_def)

lemma bit_length_bounds:
  "0 < a \<Longrightarrow> 0 < bit_length a \<and> 2 ^ (bit_length a - 1) \<le> a \<and> a < 2 ^ bit_length a"
proof (induction a rule: bit_length.induct)
  case (1 n)
  show ?case
  proof (cases "n div 2 = 0")
    case True
    with 1(2) have "n = 1" by presburger
    then show ?thesis by (simp add: bit_length.simps)
  next
    case False
    with 1(2) have pos: "0 < n div 2" by presburger
    with 1 have ih: "0 < bit_length (n div 2)"
      "2 ^ (bit_length (n div 2) - 1) \<le> n div 2" "n div 2 < 2 ^ bit_length (n div 2)"
      by simp_all
    have bl: "bit_length n = Suc (bit_length (n div 2))"
      using 1(2) by (subst bit_length.simps) simp
    obtain l where l: "bit_length (n div 2) = Suc l" using ih(1) by (cases "bit_length (n div 2)") auto
    from ih(2) l have "2 * 2 ^ l \<le> 2 * (n div 2)" by simp
    also have "\<dots> \<le> n" by presburger
    finally have lo: "2 ^ Suc l \<le> n" by simp
    from ih(3) l have "n div 2 + 1 \<le> 2 ^ Suc l" by simp
    then have "2 * (n div 2) + 2 \<le> 2 * 2 ^ Suc l" by simp
    moreover have "n < 2 * (n div 2) + 2" by presburger
    ultimately have hi: "n < 2 ^ Suc (Suc l)" by simp
    from lo hi bl l show ?thesis by simp
  qed
qed

lemma of_int_less_pow: "a < 2 ^ n \<Longrightarrow> (of_int a :: rat) < 2 ^ n"
proof -
  assume "a < 2 ^ n"
  then have "(of_int a :: rat) < of_int (2 ^ n)" by (simp only: of_int_less_iff)
  then show ?thesis by simp
qed

lemma of_int_ge_pow: "2 ^ n \<le> a \<Longrightarrow> (2 :: rat) ^ n \<le> of_int a"
proof -
  assume "2 ^ n \<le> a"
  then have "(of_int (2 ^ n) :: rat) \<le> of_int a" by (simp only: of_int_le_iff)
  then show ?thesis by simp
qed

lemma of_int_le_pow: "a \<le> 2 ^ n \<Longrightarrow> (of_int a :: rat) \<le> 2 ^ n"
proof -
  assume "a \<le> 2 ^ n"
  then have "(of_int a :: rat) \<le> of_int (2 ^ n)" by (simp only: of_int_le_iff)
  then show ?thesis by simp
qed

lemma pow2_split: "c = a + b \<Longrightarrow> pow2 c = pow2 a * pow2 b"
  by (simp only: pow2_add)

lemma bit_length_rat_bounds:
  assumes "0 < a"
  shows "pow2 (int (bit_length a) - 1) \<le> of_int a \<and> of_int a < pow2 (int (bit_length a))"
proof -
  note A = bit_length_bounds[OF assms]
  have "int (bit_length a) - 1 = int (bit_length a - 1)" using A by simp
  then have "pow2 (int (bit_length a) - 1) = 2 ^ (bit_length a - 1)" by (simp only: pow2_nat)
  moreover have "(2 :: rat) ^ (bit_length a - 1) \<le> of_int a" using A by (simp only: of_int_ge_pow)
  moreover have "(of_int a :: rat) < 2 ^ bit_length a" using A by (simp only: of_int_less_pow)
  ultimately show ?thesis by (simp only: pow2_nat)
qed

lemma floor_log2_bounds:
  assumes "0 < q"
  shows "pow2 (floor_log2 q) \<le> q \<and> q < pow2 (floor_log2 q + 1)"
proof -
  obtain a b where ab: "quotient_of q = (a, b)" by (cases "quotient_of q")
  have b: "0 < b" using quotient_of_denom_pos[OF ab] .
  have q: "q = of_int a / of_int b" using quotient_of_div[OF ab] .
  have bpos: "(0::rat) < of_int b" using b by simp
  have "0 < (of_int a :: rat)"
  proof (rule ccontr)
    assume "\<not> 0 < (of_int a :: rat)"
    then have "(of_int a :: rat) \<le> 0" by simp
    then have "of_int a / of_int b \<le> (0::rat)" using bpos by (simp add: divide_le_0_iff)
    with assms q show False by simp
  qed
  then have a: "0 < a" by simp
  let ?la = "int (bit_length a)" and ?lb = "int (bit_length b)"
  note A = bit_length_rat_bounds[OF a] and B = bit_length_rat_bounds[OF b]
  let ?e0 = "?la - ?lb"
  have hi: "q < pow2 (?e0 + 1)"
  proof -
    have "of_int a < pow2 ?la" using A by simp
    also have "pow2 ?la = pow2 (?e0 + 1) * pow2 (?lb - 1)"
      by (rule pow2_split) simp
    also have "\<dots> \<le> pow2 (?e0 + 1) * of_int b"
      using B pow2_pos[of "?e0 + 1"] by (intro mult_left_mono) simp_all
    finally have "of_int a < pow2 (?e0 + 1) * of_int b" .
    then have "of_int a / of_int b < pow2 (?e0 + 1)" using bpos by (simp only: pos_divide_less_eq)
    then show ?thesis by (simp only: q)
  qed
  have lo: "pow2 (?e0 - 1) \<le> q"
  proof -
    have "pow2 (?e0 - 1) * of_int b \<le> pow2 (?e0 - 1) * pow2 ?lb"
      using B pow2_pos[of "?e0 - 1"] by (intro mult_left_mono) simp_all
    also have "pow2 (?e0 - 1) * pow2 ?lb = pow2 (?la - 1)"
      by (rule pow2_split[symmetric]) simp
    also have "\<dots> \<le> of_int a" using A by simp
    finally have "pow2 (?e0 - 1) * of_int b \<le> of_int a" .
    then have "pow2 (?e0 - 1) \<le> of_int a / of_int b" using bpos by (simp only: pos_le_divide_eq)
    then show ?thesis by (simp only: q)
  qed
  show ?thesis
  proof (cases "q < pow2 ?e0")
    case True
    then have "floor_log2 q = ?e0 - 1" by (simp add: floor_log2_def ab)
    with True lo show ?thesis by simp
  next
    case False
    then have "floor_log2 q = ?e0" by (simp add: floor_log2_def ab)
    with False hi show ?thesis by simp
  qed
qed

lemma round_half_even_of_int: "round_half_even (of_int m) = m"
  by (simp add: round_half_even_def Let_def)

lemma round_binary64_pos_exact:
  assumes m: "0 < m" "m \<le> 2 ^ 53" and t: "- 1074 \<le> t" "t \<le> 900"
  shows "round_binary64_pos (of_int m * pow2 t) = Finite (of_int m * pow2 t)"
proof -
  define q :: rat where "q = of_int m * pow2 t"
  define e where "e = floor_log2 q"
  define p where "p = max (e - 52) (- 1074)"
  have qpos: "0 < q" using m(1) pow2_pos[of t] by (simp add: q_def)
  have fl: "pow2 e \<le> q" "q < pow2 (e + 1)"
    using floor_log2_bounds[OF qpos] by (simp_all add: e_def)
  have q_hi: "q \<le> pow2 (53 + t)"
  proof -
    have "(of_int m :: rat) \<le> 2 ^ 53" using m(2) by (rule of_int_le_pow)
    then have "q \<le> 2 ^ 53 * pow2 t" unfolding q_def using pow2_pos[of t] by (intro mult_right_mono) simp_all
    also have "\<dots> = pow2 53 * pow2 t" by (simp add: pow2_def)
    also have "\<dots> = pow2 (53 + t)" by (rule pow2_split[symmetric]) simp
    finally show ?thesis .
  qed
  have q_lo: "pow2 t \<le> q"
  proof -
    have "(1::rat) \<le> of_int m" using m(1) by simp
    then have "1 * pow2 t \<le> q" unfolding q_def using pow2_pos[of t] by (intro mult_right_mono) simp_all
    then show ?thesis by simp
  qed
  have "pow2 e \<le> pow2 (53 + t)" using fl(1) q_hi by (rule order_trans)
  then have e_hi: "e \<le> 53 + t" by (simp only: pow2_le_iff)
  have "pow2 t < pow2 (e + 1)" using q_lo fl(2) by (rule le_less_trans)
  then have "t < e + 1" by (simp only: pow2_less_iff)
  then have e_lo: "t \<le> e" by simp
  have "\<exists>k::int. q = of_int k * pow2 p"
  proof (cases "p \<le> t")
    case True
    then have "t = int (nat (t - p)) + p" by simp
    then have "pow2 t = pow2 (int (nat (t - p))) * pow2 p" by (rule pow2_split)
    then have "pow2 t = 2 ^ nat (t - p) * pow2 p" by (simp only: pow2_nat)
    then have "q = of_int m * (2 ^ nat (t - p) * pow2 p)" by (simp only: q_def)
    then have "q = of_int (m * 2 ^ nat (t - p)) * pow2 p" by (simp add: mult.assoc)
    then show ?thesis by blast
  next
    case False
    with t(1) have pe: "p = e - 52" "t < e - 52" by (auto simp: p_def)
    with e_hi have e: "e = t + 53" by simp
    have "pow2 (53 + t) \<le> q" using fl(1) e by (simp add: add.commute)
    with q_hi have "q = pow2 (53 + t)" by simp
    also have "\<dots> = pow2 52 * pow2 p" using pe e by (intro pow2_split) simp
    also have "pow2 52 = of_int (2 ^ 52)" by (simp add: pow2_def)
    finally show ?thesis by blast
  qed
  then obtain k :: int where k: "q = of_int k * pow2 p" by blast
  have ppos: "pow2 p \<noteq> 0" using pow2_pos[of p] by simp
  have "q / pow2 p = of_int k" using ppos by (simp add: k)
  then have "round_half_even (q / pow2 p) = k" by (simp only: round_half_even_of_int)
  then have r: "of_int (round_half_even (q / pow2 p)) * pow2 p = q" by (simp only: k)
  have e3: "e < 1023" using e_hi t(2) by simp
  have "round_binary64_pos q = Finite q"
    unfolding round_binary64_pos_def Let_def e_def[symmetric] p_def[symmetric]
    using e3 r by simp
  then show ?thesis by (simp only: q_def)
qed

lemma round_binary64_exact:
  assumes m: "\<bar>m\<bar> \<le> 2 ^ 53" and t: "- 1074 \<le> t" "t \<le> 900"
  shows "round_binary64 (of_int m * pow2 t) = Finite (of_int m * pow2 t)"
proof -
  consider "m = 0" | "0 < m" | "m < 0" by linarith
  then show ?thesis
  proof cases
    case 1
    then show ?thesis by (simp add: round_binary64_def)
  next
    case 2
    with m have "m \<le> 2 ^ 53" by simp
    from round_binary64_pos_exact[OF 2 this t] 2 pow2_pos[of t] show ?thesis
      by (simp add: round_binary64_def zero_less_mult_iff)
  next
    case 3
    with m have "0 < - m" "- m \<le> 2 ^ 53" by simp_all
    from round_binary64_pos_exact[OF this t] 3 pow2_pos[of t] show ?thesis
      by (simp add: round_binary64_def zero_less_mult_iff mult_less_0_iff)
  qed
qed

lemma round_binary64_whole: "\<bar>n\<bar> \<le> 2 ^ 53 \<Longrightarrow> round_binary64 (of_int n) = Finite (of_int n)"
  using round_binary64_exact[of n 0] by (simp add: pow2_def)

lemma round_binary64_half: "\<bar>n\<bar> \<le> 2 ^ 53 \<Longrightarrow> round_binary64 (of_int n / 2) = Finite (of_int n / 2)"
  using round_binary64_exact[of n "- 1"] by (simp add: pow2_def)

lemma int64_id: "- (2 ^ 63) \<le> v \<Longrightarrow> v < 2 ^ 63 \<Longrightarrow> int64 v = v"
  by (simp add: int64_def)

section \<open>Properties of the preprocessor\<close>

lemma lookup_setitem:
  "map_of (cols (setitem t name c)) m = (if m = name then Some c else map_of (cols t) m)"
  by (simp add: setitem_def update_conv')

lemma nrows_setitem: "nrows (setitem t name c) = nrows t"
  by (simp add: setitem_def)

lemma list_all_update:
  "list_all P al \<Longrightarrow> P (k, v) \<Longrightarrow> list_all P (AList.update k v al)"
  by (induction al) auto

lemma wf_df_setitem: "wf_df t \<Longrightarrow> col_len c = nrows t \<Longrightarrow> wf_df (setitem t name c)"
  by (simp add: wf_df_def setitem_def distinct_update list_all_update)

lemma wf_df_lookup: "wf_df t \<Longrightarrow> map_of (cols t) name = Some c \<Longrightarrow> col_len c = nrows t"
  by (auto simp: wf_df_def list_all_iff dest!: map_of_SomeD)

lemma add_time_length: "add_time cells c = Inr texts \<Longrightarrow> col_len c = length cells \<Longrightarrow> length texts = length cells"
  by (cases c) (auto simp: add_time_def split: if_splits)

lemma col_len_astype_float_ignore: "col_len (astype_float_ignore cells :: 'dt column) = length cells"
  by (simp add: astype_float_ignore_def)

lemma length_eq_str: "length (eq_str c s) = col_len c"
  by (cases c) auto

lemma col_len_astype_int: "col_len (astype_int bs :: 'dt column) = length bs"
  by (simp add: astype_int_def)

lemma col_len_whole_column: "col_len (whole_column cells :: 'dt column) = length cells"
  by (simp add: whole_column_def)

lemma col_len_move_counts: "col_len (move_counts cells :: 'dt column) = length cells"
  by (simp add: move_counts_def)

lemma combine_date_time_rows:
  assumes "combine_date_time cal t = Inr t'" "wf_df t"
  shows "nrows t' = nrows t \<and> wf_df t'"
proof (cases "map_of (cols t) ''UTCDate''")
  case None
  with assms show ?thesis by (simp add: combine_date_time_def)
next
  case d: (Some date_col)
  show ?thesis
  proof (cases "map_of (cols t) ''UTCTime''")
    case None
    with d assms show ?thesis by (simp add: combine_date_time_def)
  next
    case tm: (Some time_col)
    from assms(1) d tm obtain dates where dc: "date_col = ObjCol dates"
      by (cases date_col) (auto simp: combine_date_time_def)
    from assms(1) d tm dc obtain texts where
      tx: "add_time (map (\<lambda>d. str_cat d (Some '' '')) dates) time_col = Inr texts"
      by (auto simp: combine_date_time_def split: sum.splits)
    have ld: "length dates = nrows t" using wf_df_lookup[OF assms(2) d] dc by simp
    have "col_len time_col = nrows t" using wf_df_lookup[OF assms(2) tm] .
    with add_time_length[OF tx] ld have lt: "length texts = nrows t" by simp
    from assms(1) d tm dc tx have
      "t' = setitem (setitem (setitem (setitem t ''DateTime'' (DateCol (to_datetime cal texts ''%Y.%m.%d %H:%M:%S'')))
               ''Date'' (DateCol (to_datetime cal dates ''%Y.%m.%d'')))
               ''Hour'' (whole_column (map (map_option (hour cal))
                                           (to_datetime cal texts ''%Y.%m.%d %H:%M:%S''))))
               ''DayOfWeek'' (ObjCol (map (map_option (day_name cal)) (to_datetime cal dates ''%Y.%m.%d'')))"
      by (simp add: combine_date_time_def Let_def)
    with assms(2) ld lt show ?thesis
      by (simp add: nrows_setitem wf_df_setitem to_datetime_def col_len_whole_column)
  qed
qed

lemma parse_time_control_rows:
  assumes "parse_time_control t = Inr t'" "wf_df t"
  shows "nrows t' = nrows t \<and> wf_df t'"
proof (cases "map_of (cols t) ''TimeControl''")
  case None
  with assms show ?thesis by (simp add: parse_time_control_def)
next
  case (Some tc)
  with assms(1) obtain cells where c: "tc = ObjCol cells"
    by (cases tc) (auto simp: parse_time_control_def)
  have "length cells = nrows t" using wf_df_lookup[OF assms(2) Some] c by simp
  with assms Some c show ?thesis
    by (auto simp: parse_time_control_def Let_def nrows_setitem wf_df_setitem
                   col_len_astype_float_ignore str_split_get_def)
qed

lemma calculate_average_elo_rows:
  assumes "calculate_average_elo t = Inr t'" "wf_df t"
  shows "nrows t' = nrows t \<and> wf_df t'"
proof (cases "map_of (cols t) ''WhiteElo''")
  case None
  with assms show ?thesis by (simp add: calculate_average_elo_def)
next
  case w: (Some white)
  show ?thesis
  proof (cases "map_of (cols t) ''BlackElo''")
    case None
    with w assms show ?thesis by (simp add: calculate_average_elo_def)
  next
    case b: (Some black)
    have "col_len white = nrows t" "col_len black = nrows t"
      using wf_df_lookup[OF assms(2) w] wf_df_lookup[OF assms(2) b] by simp_all
    with assms w b show ?thesis
      by (cases white; cases black)
         (auto simp: calculate_average_elo_def elo_of_objects_def Let_def nrows_setitem wf_df_setitem
               split: if_splits)
  qed
qed

lemma parse_result_rows:
  assumes "parse_result t = Inr t'" "wf_df t"
  shows "nrows t' = nrows t \<and> wf_df t'"
proof (cases "map_of (cols t) ''Result''")
  case None
  with assms show ?thesis by (simp add: parse_result_def)
next
  case (Some r)
  have "col_len r = nrows t" using wf_df_lookup[OF assms(2) Some] .
  with assms Some show ?thesis
    by (auto simp: parse_result_def Let_def nrows_setitem wf_df_setitem col_len_astype_int length_eq_str)
qed

lemma extract_move_count_rows:
  assumes "extract_move_count t = Inr t'" "wf_df t"
  shows "nrows t' = nrows t \<and> wf_df t'"
proof (cases "map_of (cols t) ''AN''")
  case None
  with assms show ?thesis by (simp add: extract_move_count_def)
next
  case (Some an)
  with assms(1) obtain cells where c: "an = ObjCol cells"
    by (cases an) (auto simp: extract_move_count_def)
  have "length cells = nrows t" using wf_df_lookup[OF assms(2) Some] c by simp
  with assms Some c show ?thesis
    by (auto simp: extract_move_count_def nrows_setitem wf_df_setitem col_len_move_counts)
qed

lemma preprocess_data_Inr:
  assumes "preprocess_data cal h a = (Inr d, h')"
  shows "\<exists>t1 t2 t3 t4 t5.
           combine_date_time cal (h ! a) = Inr t1 \<and> parse_time_control t1 = Inr t2
           \<and> calculate_average_elo t2 = Inr t3 \<and> parse_result t3 = Inr t4
           \<and> extract_move_count t4 = Inr t5 \<and> d = length h \<and> h' = h @ [t5]"
  using assms
  by (auto simp: preprocess_data_def df_copy_def run_block_def Let_def
           split: sum.splits option.splits)

lemma preprocess_data_heap:
  "\<exists>t. snd (preprocess_data cal h a) = h @ [t]"
  by (auto simp: preprocess_data_def df_copy_def run_block_def Let_def
           split: sum.splits option.splits)

lemma preprocess_data_ok:
  assumes "combine_date_time cal (h ! a) = Inr t1" "parse_time_control t1 = Inr t2"
          "calculate_average_elo t2 = Inr t3" "parse_result t3 = Inr t4"
          "extract_move_count t4 = Inr t5"
  shows "preprocess_data cal h a = (Inr (length h), h @ [t5])"
  using assms
  by (simp add: preprocess_data_def df_copy_def run_block_def Let_def)

lemma combine_date_time_frame:
  "combine_date_time cal t = Inr t' \<Longrightarrow> m \<notin> set [''DateTime'', ''Date'', ''Hour'', ''DayOfWeek''] \<Longrightarrow>
   map_of (cols t') m = map_of (cols t) m"
  by (auto simp: combine_date_time_def Let_def lookup_setitem
           split: option.splits column.splits sum.splits)

lemma parse_time_control_frame:
  "parse_time_control t = Inr t' \<Longrightarrow>
   m \<notin> set [''TimeControl_Base'', ''TimeControl_Increment'', ''TimeControl_Grouped''] \<Longrightarrow>
   map_of (cols t') m = map_of (cols t) m"
  by (auto simp: parse_time_control_def Let_def lookup_setitem
           split: option.splits column.splits)

lemma calculate_average_elo_frame:
  "calculate_average_elo t = Inr t' \<Longrightarrow> m \<notin> set [''AvgElo'', ''EloDiff''] \<Longrightarrow>
   map_of (cols t') m = map_of (cols t) m"
  by (auto simp: calculate_average_elo_def elo_of_objects_def Let_def lookup_setitem
           split: option.splits column.splits if_splits)

lemma parse_result_frame:
  "parse_result t = Inr t' \<Longrightarrow> m \<notin> set [''WhiteWins'', ''BlackWins'', ''Draw''] \<Longrightarrow>
   map_of (cols t') m = map_of (cols t) m"
  by (auto simp: parse_result_def Let_def lookup_setitem split: option.splits)

lemma extract_move_count_frame:
  "extract_move_count t = Inr t' \<Longrightarrow> m \<noteq> ''MoveCount'' \<Longrightarrow>
   map_of (cols t') m = map_of (cols t) m"
  by (auto simp: extract_move_count_def lookup_setitem split: option.splits column.splits)

lemma parse_result_flags:
  assumes "parse_result t = Inr t'" "map_of (cols t) ''Result'' = Some r"
  shows "map_of (cols t') ''WhiteWins'' = Some (astype_int (eq_str r ''1-0''))
         \<and> map_of (cols t') ''BlackWins'' = Some (astype_int (eq_str r ''0-1''))
         \<and> map_of (cols t') ''Draw'' = Some (astype_int (eq_str r ''1/2-1/2''))"
  using assms by (auto simp: parse_result_def Let_def lookup_setitem)

lemma documented_kinds_obj:
  "documented_kinds t \<Longrightarrow> m \<in> set [''UTCDate'', ''UTCTime'', ''TimeControl'', ''AN''] \<Longrightarrow>
   map_of (cols t) m = Some c \<Longrightarrow> \<exists>cells. c = ObjCol cells"
  by (cases c) (auto simp: documented_kinds_def)

lemma documented_kinds_num:
  "documented_kinds t \<Longrightarrow> m \<in> set [''WhiteElo'', ''BlackElo''] \<Longrightarrow>
   map_of (cols t) m = Some c \<Longrightarrow> is_numeric c"
  by (auto simp: documented_kinds_def)

lemma documented_kinds_cong:
  assumes "documented_kinds t"
      and "map_of (cols t') ''UTCDate'' = map_of (cols t) ''UTCDate''"
      and "map_of (cols t') ''UTCTime'' = map_of (cols t) ''UTCTime''"
      and "map_of (cols t') ''TimeControl'' = map_of (cols t) ''TimeControl''"
      and "map_of (cols t') ''AN'' = map_of (cols t) ''AN''"
      and "map_of (cols t') ''WhiteElo'' = map_of (cols t) ''WhiteElo''"
      and "map_of (cols t') ''BlackElo'' = map_of (cols t) ''BlackElo''"
  shows "documented_kinds t'"
  using assms by (simp add: documented_kinds_def)

lemma combine_date_time_kinds:
  "combine_date_time cal t = Inr t' \<Longrightarrow> documented_kinds t \<Longrightarrow> documented_kinds t'"
  by (erule documented_kinds_cong) (simp_all add: combine_date_time_frame)

lemma parse_time_control_kinds:
  "parse_time_control t = Inr t' \<Longrightarrow> documented_kinds t \<Longrightarrow> documented_kinds t'"
  by (erule documented_kinds_cong) (simp_all add: parse_time_control_frame)

lemma calculate_average_elo_kinds:
  "calculate_average_elo t = Inr t' \<Longrightarrow> documented_kinds t \<Longrightarrow> documented_kinds t'"
  by (erule documented_kinds_cong) (simp_all add: calculate_average_elo_frame)

lemma parse_result_kinds:
  "parse_result t = Inr t' \<Longrightarrow> documented_kinds t \<Longrightarrow> documented_kinds t'"
  by (erule documented_kinds_cong) (simp_all add: parse_result_frame)

lemma combine_date_time_returns:
  assumes "documented_kinds t"
  shows "\<exists>t'. combine_date_time cal t = Inr t'"
proof (cases "map_of (cols t) ''UTCDate''")
  case None
  then show ?thesis by (simp add: combine_date_time_def)
next
  case d: (Some date_col)
  show ?thesis
  proof (cases "map_of (cols t) ''UTCTime''")
    case None
    with d show ?thesis by (simp add: combine_date_time_def)
  next
    case tm: (Some time_col)
    from documented_kinds_obj[OF assms _ d] documented_kinds_obj[OF assms _ tm]
    obtain dates times where "date_col = ObjCol dates" "time_col = ObjCol times"
      by auto
    with d tm show ?thesis by (simp add: combine_date_time_def add_time_def Let_def)
  qed
qed

lemma parse_time_control_returns:
  assumes "documented_kinds t"
  shows "\<exists>t'. parse_time_control t = Inr t'"
proof (cases "map_of (cols t) ''TimeControl''")
  case None
  then show ?thesis by (simp add: parse_time_control_def)
next
  case (Some tc)
  from documented_kinds_obj[OF assms _ Some] obtain cells where "tc = ObjCol cells" by auto
  with Some show ?thesis by (simp add: parse_time_control_def Let_def)
qed

lemma calculate_average_elo_returns:
  assumes "documented_kinds t"
  shows "\<exists>t'. calculate_average_elo t = Inr t'"
proof (cases "map_of (cols t) ''WhiteElo''")
  case None
  then show ?thesis by (simp add: calculate_average_elo_def)
next
  case w: (Some white)
  show ?thesis
  proof (cases "map_of (cols t) ''BlackElo''")
    case None
    with w show ?thesis by (simp add: calculate_average_elo_def)
  next
    case b: (Some black)
    from documented_kinds_num[OF assms _ w] documented_kinds_num[OF assms _ b]
    have "is_numeric white" "is_numeric black"
      by simp_all
    with w b show ?thesis
      by (cases white; cases black) (simp_all add: calculate_average_elo_def Let_def)
  qed
qed

lemma parse_result_returns: "\<exists>t'. parse_result t = Inr t'"
  by (simp add: parse_result_def Let_def split: option.splits)

lemma extract_move_count_returns:
  assumes "documented_kinds t"
  shows "\<exists>t'. extract_move_count t = Inr t'"
proof (cases "map_of (cols t) ''AN''")
  case None
  then show ?thesis by (simp add: extract_move_count_def)
next
  case (Some an)
  from documented_kinds_obj[OF assms _ Some] obtain cells where "an = ObjCol cells" by auto
  with Some show ?thesis by (simp add: extract_move_count_def)
qed

lemma preprocess_data_returns:
  assumes "documented_kinds (h ! df)"
  shows "\<exists>d h'. preprocess_data cal h df = (Inr d, h')"
proof -
  from combine_date_time_returns[OF assms] obtain t1 where s1: "combine_date_time cal (h ! df) = Inr t1"
    by blast
  note k1 = combine_date_time_kinds[OF s1 assms]
  from parse_time_control_returns[OF k1] obtain t2 where s2: "parse_time_control t1 = Inr t2"
    by blast
  note k2 = parse_time_control_kinds[OF s2 k1]
  from calculate_average_elo_returns[OF k2] obtain t3 where s3: "calculate_average_elo t2 = Inr t3"
    by blast
  note k3 = calculate_average_elo_kinds[OF s3 k2]
  from parse_result_returns obtain t4 where s4: "parse_result t3 = Inr t4"
    by blast
  note k4 = parse_result_kinds[OF s4 k3]
  from extract_move_count_returns[OF k4] obtain t5 where s5: "extract_move_count t4 = Inr t5"
    by blast
  from preprocess_data_ok[OF s1 s2 s3 s4 s5] show ?thesis by blast
qed

lemma preprocess_data_rows:
  assumes run: "preprocess_data cal h df = (Inr d, h')" and wf: "wf_df (h ! df)"
  shows "nrows (h' ! d) = nrows (h ! df) \<and> wf_df (h' ! d)"
proof -
  from preprocess_data_Inr[OF run] obtain t1 t2 t3 t4 t5 where
    s1: "combine_date_time cal (h ! df) = Inr t1" and s2: "parse_time_control t1 = Inr t2" and
    s3: "calculate_average_elo t2 = Inr t3" and s4: "parse_result t3 = Inr t4" and
    s5: "extract_move_count t4 = Inr t5" and d: "d = length h" and h': "h' = h @ [t5]"
    by blast
  note r1 = combine_date_time_rows[OF s1 wf]
  note r2 = parse_time_control_rows[OF s2 conjunct2[OF r1]]
  note r3 = calculate_average_elo_rows[OF s3 conjunct2[OF r2]]
  note r4 = parse_result_rows[OF s4 conjunct2[OF r3]]
  note r5 = extract_move_count_rows[OF s5 conjunct2[OF r4]]
  have "h' ! d = t5" using d h' by simp
  with r1 r2 r3 r4 r5 show ?thesis by simp
qed

subsection \<open>Ratings that are whole numbers\<close>

lemma to_float64_exact: "\<bar>n\<bar> \<le> 2 ^ 53 \<Longrightarrow> to_float64 n = Finite (of_int n)"
  by (simp only: to_float64_def round_binary64_whole)

lemma avg_float_exact:
  assumes "\<bar>x\<bar> \<le> 2 ^ 52" "\<bar>y\<bar> \<le> 2 ^ 52"
  shows "float_div (float_add (Finite (of_int x)) (Finite (of_int y))) 2 = Finite ((of_int x + of_int y) / 2)"
proof -
  have s: "\<bar>x + y\<bar> \<le> 2 ^ 53" using assms by simp
  have "float_add (Finite (of_int x)) (Finite (of_int y)) = round_binary64 (of_int (x + y))"
    by simp
  also have "\<dots> = Finite (of_int (x + y))" using s by (rule round_binary64_whole)
  finally have "float_div (float_add (Finite (of_int x)) (Finite (of_int y))) 2
                  = round_binary64 (of_int (x + y) / 2)"
    by simp
  also have "\<dots> = Finite (of_int (x + y) / 2)" using s by (rule round_binary64_half)
  finally show ?thesis by simp
qed

lemma diff_float_exact:
  assumes "\<bar>x\<bar> \<le> 2 ^ 52" "\<bar>y\<bar> \<le> 2 ^ 52"
  shows "float_abs (float_sub (Finite (of_int x)) (Finite (of_int y))) = Finite \<bar>of_int x - of_int y\<bar>"
proof -
  have s: "\<bar>x - y\<bar> \<le> 2 ^ 53" using assms by simp
  have "float_sub (Finite (of_int x)) (Finite (of_int y)) = round_binary64 (of_int (x - y))"
    by (simp add: float_sub_def)
  also have "\<dots> = Finite (of_int (x - y))" using s by (rule round_binary64_whole)
  finally show ?thesis by simp
qed

lemma avg_int_exact:
  assumes "\<bar>x\<bar> \<le> 2 ^ 52" "\<bar>y\<bar> \<le> 2 ^ 52"
  shows "float_div (to_float64 (int64 (x + y))) 2 = Finite ((of_int x + of_int y) / 2)"
proof -
  have s: "\<bar>x + y\<bar> \<le> 2 ^ 53" using assms by simp
  then have "int64 (x + y) = x + y" by (intro int64_id) simp_all
  then have "to_float64 (int64 (x + y)) = Finite (of_int (x + y))"
    using s by (simp only: to_float64_exact)
  then have "float_div (to_float64 (int64 (x + y))) 2 = round_binary64 (of_int (x + y) / 2)"
    by simp
  also have "\<dots> = Finite (of_int (x + y) / 2)" using s by (rule round_binary64_half)
  finally show ?thesis by simp
qed

lemma diff_int_exact:
  assumes "\<bar>x\<bar> \<le> 2 ^ 52" "\<bar>y\<bar> \<le> 2 ^ 52"
  shows "int64 \<bar>int64 (x - y)\<bar> = \<bar>x - y\<bar>"
proof -
  have s: "\<bar>x - y\<bar> \<le> 2 ^ 53" using assms by simp
  then have "int64 (x - y) = x - y" by (intro int64_id) simp_all
  moreover have "int64 \<bar>x - y\<bar> = \<bar>x - y\<bar>" using s by (intro int64_id) simp_all
  ultimately show ?thesis by simp
qed

lemma float_add_NaN: "float_add x NaN = NaN" "float_add NaN y = NaN"
  by (cases x) simp_all

lemma avg_NaN: "x = NaN \<or> y = NaN \<Longrightarrow> float_div (float_add x y) 2 = NaN"
  by (auto simp: float_add_NaN)

lemma diff_NaN: "x = NaN \<or> y = NaN \<Longrightarrow> float_abs (float_sub x y) = NaN"
  by (auto simp: float_sub_def float_add_NaN)

lemma as_float64_row:
  assumes "as_float64 c = Some xs" "i < col_len c"
  shows "length xs = col_len c
         \<and> (number_at c i = NaN \<longrightarrow> xs ! i = NaN)
         \<and> (\<forall>x. number_at c i = Finite (of_int x) \<and> \<bar>x\<bar> \<le> 2 ^ 52 \<longrightarrow> xs ! i = Finite (of_int x))"
proof (cases c)
  case (IntCol ns)
  have "to_float64 x = Finite (of_int x)" if "\<bar>x\<bar> \<le> 2 ^ 52" for x
    using that by (intro to_float64_exact) simp
  with assms IntCol show ?thesis by auto
qed (use assms in auto)

lemma calculate_average_elo_int:
  assumes "calculate_average_elo t = Inr t'"
      and "map_of (cols t) ''WhiteElo'' = Some (IntCol ws)"
      and "map_of (cols t) ''BlackElo'' = Some (IntCol bs)"
  shows "map_of (cols t') ''AvgElo'' = Some (NumCol (map2 (\<lambda>w b. float_div (to_float64 (int64 (w + b))) 2) ws bs))
         \<and> map_of (cols t') ''EloDiff'' = Some (IntCol (map2 (\<lambda>w b. int64 \<bar>int64 (w - b)\<bar>) ws bs))"
  using assms by (auto simp: calculate_average_elo_def Let_def lookup_setitem)

lemma calculate_average_elo_float:
  assumes "calculate_average_elo t = Inr t'"
      and "map_of (cols t) ''WhiteElo'' = Some white"
      and "map_of (cols t) ''BlackElo'' = Some black"
      and "as_float64 white = Some ws" "as_float64 black = Some bs"
      and "white = NumCol ws \<or> black = NumCol bs"
  shows "map_of (cols t') ''AvgElo'' = Some (NumCol (map2 (\<lambda>w b. float_div (float_add w b) 2) ws bs))
         \<and> map_of (cols t') ''EloDiff'' = Some (NumCol (map2 (\<lambda>w b. float_abs (float_sub w b)) ws bs))"
  using assms
  by (cases white; cases black) (auto simp: calculate_average_elo_def Let_def lookup_setitem)

lemma calculate_average_elo_numeric:
  assumes s: "calculate_average_elo t = Inr t'"
      and w: "map_of (cols t) ''WhiteElo'' = Some white"
      and b: "map_of (cols t) ''BlackElo'' = Some black"
      and nw: "is_numeric white" and nb: "is_numeric black"
      and lw: "col_len white = n" and lb: "col_len black = n"
      and i: "i < n"
  shows "\<exists>avg diff.
           map_of (cols t') ''AvgElo'' = Some (NumCol avg)
           \<and> map_of (cols t') ''EloDiff'' = Some diff
           \<and> is_numeric diff \<and> length avg = n \<and> col_len diff = n
           \<and> (\<forall>x y. number_at white i = Finite (of_int x) \<and> number_at black i = Finite (of_int y)
                     \<and> \<bar>x\<bar> \<le> 2 ^ 52 \<and> \<bar>y\<bar> \<le> 2 ^ 52 \<longrightarrow>
                  avg ! i = Finite ((of_int x + of_int y) / 2)
                  \<and> number_at diff i = Finite \<bar>of_int x - of_int y\<bar>)
           \<and> (number_at white i = NaN \<or> number_at black i = NaN \<longrightarrow>
                  avg ! i = NaN \<and> number_at diff i = NaN)"
proof (cases "(\<exists>ws. white = IntCol ws) \<and> (\<exists>bs. black = IntCol bs)")
  case True
  then obtain ws bs where c: "white = IntCol ws" "black = IntCol bs" by blast
  let ?avg = "map2 (\<lambda>w b. float_div (to_float64 (int64 (w + b))) 2) ws bs"
  let ?diff = "map2 (\<lambda>w b. int64 \<bar>int64 (w - b)\<bar>) ws bs"
  have l: "length ws = n" "length bs = n" using lw lb c by simp_all
  have r: "map_of (cols t') ''AvgElo'' = Some (NumCol ?avg)" "map_of (cols t') ''EloDiff'' = Some (IntCol ?diff)"
    using calculate_average_elo_int[OF s w[unfolded c] b[unfolded c]] by simp_all
  have ai: "?avg ! i = float_div (to_float64 (int64 (ws ! i + bs ! i))) 2"
    and di: "?diff ! i = int64 \<bar>int64 (ws ! i - bs ! i)\<bar>"
    using i l by simp_all
  have "?avg ! i = Finite ((of_int x + of_int y) / 2) \<and> number_at (IntCol ?diff) i = Finite \<bar>of_int x - of_int y\<bar>"
    if "number_at white i = Finite (of_int x)" "number_at black i = Finite (of_int y)"
       "\<bar>x\<bar> \<le> 2 ^ 52" "\<bar>y\<bar> \<le> 2 ^ 52" for x y
  proof -
    from that(1,2) c have xy: "ws ! i = x" "bs ! i = y" by simp_all
    show ?thesis
      unfolding number_at.simps ai di xy avg_int_exact[OF that(3,4)] diff_int_exact[OF that(3,4)]
      by simp
  qed
  moreover have "\<not> (number_at white i = NaN \<or> number_at black i = NaN)" using c by simp
  ultimately show ?thesis using r l by (intro exI[of _ ?avg] exI[of _ "IntCol ?diff"]) simp
next
  case False
  from nw nb obtain ws bs where f: "as_float64 white = Some ws" "as_float64 black = Some bs"
    by (cases white; cases black) auto
  from False nw nb f have "white = NumCol ws \<or> black = NumCol bs"
    by (cases white; cases black) auto
  note r = calculate_average_elo_float[OF s w b f this]
  let ?avg = "map2 (\<lambda>w b. float_div (float_add w b) 2) ws bs"
  let ?diff = "map2 (\<lambda>w b. float_abs (float_sub w b)) ws bs"
  note rw = as_float64_row[OF f(1), of i] and rb = as_float64_row[OF f(2), of i]
  have l: "length ws = n" "length bs = n" using rw rb lw lb i by simp_all
  have ai: "?avg ! i = float_div (float_add (ws ! i) (bs ! i)) 2"
    and di: "?diff ! i = float_abs (float_sub (ws ! i) (bs ! i))"
    using i l by simp_all
  have "?avg ! i = Finite ((of_int x + of_int y) / 2) \<and> number_at (NumCol ?diff) i = Finite \<bar>of_int x - of_int y\<bar>"
    if "number_at white i = Finite (of_int x)" "number_at black i = Finite (of_int y)"
       "\<bar>x\<bar> \<le> 2 ^ 52" "\<bar>y\<bar> \<le> 2 ^ 52" for x y
  proof -
    from that rw rb lw lb i have xy: "ws ! i = Finite (of_int x)" "bs ! i = Finite (of_int y)" by simp_all
    show ?thesis
      unfolding number_at.simps ai di xy avg_float_exact[OF that(3,4)] diff_float_exact[OF that(3,4)]
      by simp
  qed
  moreover have "?avg ! i = NaN \<and> number_at (NumCol ?diff) i = NaN"
    if "number_at white i = NaN \<or> number_at black i = NaN"
  proof -
    from that rw rb lw lb i have "ws ! i = NaN \<or> bs ! i = NaN" by auto
    then show ?thesis unfolding number_at.simps ai di by (simp only: avg_NaN diff_NaN simp_thms)
  qed
  ultimately show ?thesis using r l by (intro exI[of _ ?avg] exI[of _ "NumCol ?diff"]) simp
qed

subsection \<open>The example tables\<close>

lemma wf_example_games: "wf_df example_games"
  by (simp add: wf_df_def example_games_def)

lemma wf_empty_games: "wf_df empty_games"
  by (simp add: wf_df_def empty_games_def)

lemma empty_games_returns: "fst (preprocess_data plain_calendar [empty_games] 0) = Inr 1"
  by code_simp

lemma empty_games_run:
  "preprocess_data plain_calendar [empty_games] 0
     = (Inr 1, snd (preprocess_data plain_calendar [empty_games] 0))"
  using empty_games_returns by (simp add: prod_eq_iff)

lemma documented_kinds_example_games: "documented_kinds example_games"
  by (simp add: documented_kinds_def example_games_def)

lemma example_games_returns: "fst (preprocess_data plain_calendar [example_games] 0) = Inr 1"
proof -
  have "documented_kinds ([example_games] ! 0)" using documented_kinds_example_games by simp
  from preprocess_data_returns[OF this, of plain_calendar] obtain d h' where
    r: "preprocess_data plain_calendar [example_games] 0 = (Inr d, h')"
    by blast
  from preprocess_data_Inr[OF r] have "d = 1" by auto
  with r show ?thesis by simp
qed

lemma example_games_run:
  "preprocess_data plain_calendar [example_games] 0
     = (Inr 1, snd (preprocess_data plain_calendar [example_games] 0))"
  using example_games_returns by (simp add: prod_eq_iff)

text \<open>
  The table of one game, preprocessed: a draw of a blitz game played on a Friday at noon.
\<close>

lemma one_game_preprocessed:
  "preprocess_data plain_calendar [one_game] 0 =
     (Inr 1,
      [one_game,
       \<lparr>nrows = 1,
        cols =
          [(''WhiteElo'', IntCol [1500]),
           (''BlackElo'', IntCol [1520]),
           (''Result'', ObjCol [Some ''1/2-1/2'']),
           (''TimeControl'', ObjCol [Some ''300+3'']),
           (''UTCDate'', ObjCol [Some ''2016.07.01'']),
           (''UTCTime'', ObjCol [Some ''12:30:00'']),
           (''AN'', ObjCol [Some ''1. e4 e5 2. Nf3 Nc6 1/2-1/2'']),
           (''DateTime'', DateCol [Some [2016, 7, 1, 12, 30, 0]]),
           (''Date'', DateCol [Some [2016, 7, 1, 0, 0, 0]]),
           (''Hour'', IntCol [12]),
           (''DayOfWeek'', ObjCol [Some ''Friday'']),
           (''TimeControl_Base'', NumCol [Finite 300]),
           (''TimeControl_Increment'', NumCol [Finite 3]),
           (''TimeControl_Grouped'', ObjCol [Some ''Blitz (3-10min)'']),
           (''AvgElo'', NumCol [Finite 1510]),
           (''EloDiff'', IntCol [20]),
           (''WhiteWins'', IntCol [0]),
           (''BlackWins'', IntCol [0]),
           (''Draw'', IntCol [1]),
           (''MoveCount'', IntCol [2])]\<rparr>])"
  by code_simp

subsection \<open>Time-control columns\<close>

lemma astype_float_ignore_refused:
  "Some s \<in> set cells \<Longrightarrow> py_float s = None \<Longrightarrow> astype_float_ignore cells = ObjCol cells"
  by (auto simp: astype_float_ignore_def list_all_iff intro!: bexI[of _ "Some s"])

lemma astype_float_ignore_accepted:
  "\<forall>s. Some s \<in> set cells \<longrightarrow> py_float s \<noteq> None \<Longrightarrow> \<exists>xs. astype_float_ignore cells = NumCol xs"
  by (auto simp: astype_float_ignore_def list_all_iff split: option.splits)

text \<open>
  Claim C3. The claim says that a part of \<open>TimeControl\<close> that is no number gives a missing
  value in that row and that the other rows hold numbers. On the table of the two time
  controls \<open>300+0\<close> and \<open>-\<close>, \<open>float\<close> refuses the left part of the second row, and
  \<open>astype(float, errors='ignore')\<close> then returns the column of the left parts as it was:
  \<open>TimeControl_Base\<close> holds the strings \<open>300\<close> and \<open>-\<close>, not the number 300 and a missing
  value. The right parts are all accepted (the second row has none), and
  \<open>TimeControl_Increment\<close> holds the number 0 and a missing value.
\<close>

theorem time_control_base_not_parsed:
  "preprocess_data plain_calendar
     [\<lparr>nrows = 2, cols = [(''TimeControl'', ObjCol [Some ''300+0'', Some ''-''])]\<rparr>] 0 =
     (Inr 1,
      [\<lparr>nrows = 2, cols = [(''TimeControl'', ObjCol [Some ''300+0'', Some ''-''])]\<rparr>,
       \<lparr>nrows = 2,
        cols = [(''TimeControl'', ObjCol [Some ''300+0'', Some ''-'']),
                (''TimeControl_Base'', ObjCol [Some ''300'', Some ''-'']),
                (''TimeControl_Increment'', NumCol [Finite 0, NaN]),
                (''TimeControl_Grouped'', ObjCol [Some ''Blitz (3-10min)'', Some ''Unknown''])]\<rparr>])"
  by code_simp

subsection \<open>Rows\<close>

text \<open>
  Claim C6. For every well-formed table, one with no rows too: when \<open>preprocess_data\<close>
  returns, the table that it returns has as many rows as the table given, and one cell for
  each of them in every column. It returns on every table whose columns have the kinds of
  the file format (on a table with a numeric \<open>TimeControl\<close> column, for one, the accessor
  \<open>.str\<close> raises and there is no output).
\<close>

theorem preprocess_data_row_count:
  assumes "wf_df (h ! df)"
  shows "(\<forall>d h'. preprocess_data cal h df = (Inr d, h') \<longrightarrow>
            nrows (h' ! d) = nrows (h ! df) \<and> wf_df (h' ! d))
         \<and> (documented_kinds (h ! df) \<longrightarrow> (\<exists>d h'. preprocess_data cal h df = (Inr d, h')))"
  using preprocess_data_rows[OF _ assms] preprocess_data_returns by blast

theorem preprocess_data_row_count_witness:
  "wf_df ([empty_games] ! 0)
   \<and> preprocess_data plain_calendar [empty_games] 0
       = (Inr 1, snd (preprocess_data plain_calendar [empty_games] 0))
   \<and> nrows (snd (preprocess_data plain_calendar [empty_games] 0) ! 1) = 0
   \<and> wf_df (snd (preprocess_data plain_calendar [empty_games] 0) ! 1)
   \<and> wf_df ([example_games] ! 0) \<and> documented_kinds ([example_games] ! 0)
   \<and> (\<exists>d h'. preprocess_data plain_calendar [example_games] 0 = (Inr d, h')
          \<and> nrows (h' ! d) = 4 \<and> wf_df (h' ! d))"
proof -
  have wf0: "wf_df ([empty_games] ! 0)" using wf_empty_games by simp
  have n0: "nrows ([empty_games] ! 0) = 0" by (simp add: empty_games_def)
  have wf4: "wf_df ([example_games] ! 0)" using wf_example_games by simp
  have dk4: "documented_kinds ([example_games] ! 0)"
    by (simp add: documented_kinds_def example_games_def)
  have n4: "nrows ([example_games] ! 0) = 4" by (simp add: example_games_def)
  from preprocess_data_row_count[OF wf0, of plain_calendar] empty_games_run n0
  have "nrows (snd (preprocess_data plain_calendar [empty_games] 0) ! 1) = 0
        \<and> wf_df (snd (preprocess_data plain_calendar [empty_games] 0) ! 1)"
    by metis
  moreover from preprocess_data_row_count[OF wf4, of plain_calendar] dk4 n4
  have "\<exists>d h'. preprocess_data plain_calendar [example_games] 0 = (Inr d, h')
          \<and> nrows (h' ! d) = 4 \<and> wf_df (h' ! d)"
    by metis
  ultimately show ?thesis using wf0 wf4 dk4 empty_games_run by blast
qed

subsection \<open>The table given is left as it was\<close>

text \<open>
  Claim C7. After a call of \<open>preprocess_data\<close>, whether it returns or raises, every table
  that existed before the call is as it was, the table given among them. The table
  returned is a new one: its reference is none of the references that existed. It is a
  copy with columns added: every column of the table given whose name is not the name of a
  derived column is in it with the same cells.
\<close>

theorem preprocess_data_no_mutation:
  "(\<forall>a < length h. snd (preprocess_data cal h df) ! a = h ! a)
   \<and> (\<forall>d. fst (preprocess_data cal h df) = Inr d \<longrightarrow>
        length h \<le> d \<and> d < length (snd (preprocess_data cal h df))
        \<and> (\<forall>m. m \<notin> set derived_columns \<longrightarrow>
              map_of (cols (snd (preprocess_data cal h df) ! d)) m = map_of (cols (h ! df)) m))"
proof (intro conjI allI impI)
  fix a assume "a < length h"
  moreover from preprocess_data_heap obtain t where "snd (preprocess_data cal h df) = h @ [t]"
    by blast
  ultimately show "snd (preprocess_data cal h df) ! a = h ! a" by (simp add: nth_append)
next
  fix d assume r: "fst (preprocess_data cal h df) = Inr d"
  then have run: "preprocess_data cal h df = (Inr d, snd (preprocess_data cal h df))"
    by (metis prod.collapse)
  from preprocess_data_Inr[OF run] obtain t1 t2 t3 t4 t5 where
    s1: "combine_date_time cal (h ! df) = Inr t1" and s2: "parse_time_control t1 = Inr t2" and
    s3: "calculate_average_elo t2 = Inr t3" and s4: "parse_result t3 = Inr t4" and
    s5: "extract_move_count t4 = Inr t5" and d: "d = length h" and
    h': "snd (preprocess_data cal h df) = h @ [t5]"
    by blast
  show "length h \<le> d" using d by simp
  show "d < length (snd (preprocess_data cal h df))" using d h' by simp
  fix m assume "m \<notin> set derived_columns"
  then have "map_of (cols t5) m = map_of (cols (h ! df)) m"
    using combine_date_time_frame[OF s1, of m] parse_time_control_frame[OF s2, of m]
          calculate_average_elo_frame[OF s3, of m] parse_result_frame[OF s4, of m]
          extract_move_count_frame[OF s5, of m]
    by (simp add: derived_columns_def)
  then show "map_of (cols (snd (preprocess_data cal h df) ! d)) m = map_of (cols (h ! df)) m"
    using d h' by simp
qed

theorem preprocess_data_no_mutation_witness:
  "(0::nat) < length [example_games]
   \<and> snd (preprocess_data plain_calendar [example_games] 0) ! 0 = example_games
   \<and> fst (preprocess_data plain_calendar [example_games] 0) = Inr 1
   \<and> ''ECO'' \<notin> set derived_columns
   \<and> map_of (cols (snd (preprocess_data plain_calendar [example_games] 0) ! 1)) ''ECO''
       = Some (ObjCol [Some ''C50'', Some ''B12'', None, Some ''A00''])"
proof -
  have l: "(0::nat) < length [example_games]" by simp
  have e: "''ECO'' \<notin> set derived_columns" by (simp add: derived_columns_def)
  have c: "map_of (cols ([example_games] ! 0)) ''ECO'' = Some (ObjCol [Some ''C50'', Some ''B12'', None, Some ''A00''])"
    by (simp add: example_games_def)
  note m = preprocess_data_no_mutation[of "[example_games]" plain_calendar 0]
  from m l have "snd (preprocess_data plain_calendar [example_games] 0) ! 0 = example_games"
    by auto
  moreover from m example_games_returns e c
  have "map_of (cols (snd (preprocess_data plain_calendar [example_games] 0) ! 1)) ''ECO''
          = Some (ObjCol [Some ''C50'', Some ''B12'', None, Some ''A00''])"
    by metis
  ultimately show ?thesis using l e example_games_returns by blast
qed

subsection \<open>Ratings\<close>

text \<open>
  The ratings are added, halved and subtracted in the arithmetic of their columns, which
  is not exact at every number. On the table of one game whose ratings are the integers
  9223372036854775807 (the largest int64 number) and 1, the sum wraps around to
  \<open>- 9223372036854775808\<close> and \<open>AvgElo\<close> is \<open>- 4611686018427387904\<close>, not the mean
  4611686018427387904. On the table whose ratings are the floats nearest to 0.1 and to
  0.2, the sum is rounded and \<open>AvgElo\<close> is the float 0.15000000000000002, which is not the
  mean of the two floats; \<open>EloDiff\<close> is their difference, which is a float.
\<close>

theorem preprocess_data_elo_not_exact:
  "preprocess_data plain_calendar [overflow_game] 0 =
     (Inr 1,
      [overflow_game,
       \<lparr>nrows = 1,
        cols = [(''WhiteElo'', IntCol [9223372036854775807]),
                (''BlackElo'', IntCol [1]),
                (''AvgElo'', NumCol [Finite (- 4611686018427387904)]),
                (''EloDiff'', IntCol [9223372036854775806])]\<rparr>])
   \<and> (9223372036854775807 + 1) / 2 \<noteq> (- 4611686018427387904 :: rat)
   \<and> preprocess_data plain_calendar [rounding_game] 0 =
     (Inr 1,
      [rounding_game,
       \<lparr>nrows = 1,
        cols = [(''WhiteElo'', NumCol [Finite (3602879701896397 / 36028797018963968)]),
                (''BlackElo'', NumCol [Finite (3602879701896397 / 18014398509481984)]),
                (''AvgElo'', NumCol [Finite (1351079888211149 / 9007199254740992)]),
                (''EloDiff'', NumCol [Finite (3602879701896397 / 36028797018963968)])]\<rparr>])
   \<and> (3602879701896397 / 36028797018963968 + 3602879701896397 / 18014398509481984) / 2
         \<noteq> (1351079888211149 / 9007199254740992 :: rat)"
proof -
  have "preprocess_data plain_calendar [overflow_game] 0 =
     (Inr 1,
      [overflow_game,
       \<lparr>nrows = 1,
        cols = [(''WhiteElo'', IntCol [9223372036854775807]),
                (''BlackElo'', IntCol [1]),
                (''AvgElo'', NumCol [Finite (- 4611686018427387904)]),
                (''EloDiff'', IntCol [9223372036854775806])]\<rparr>])"
    by code_simp
  moreover have "preprocess_data plain_calendar [rounding_game] 0 =
     (Inr 1,
      [rounding_game,
       \<lparr>nrows = 1,
        cols = [(''WhiteElo'', NumCol [Finite (3602879701896397 / 36028797018963968)]),
                (''BlackElo'', NumCol [Finite (3602879701896397 / 18014398509481984)]),
                (''AvgElo'', NumCol [Finite (1351079888211149 / 9007199254740992)]),
                (''EloDiff'', NumCol [Finite (3602879701896397 / 36028797018963968)])]\<rparr>])"
    by code_simp
  ultimately show ?thesis by simp
qed

text \<open>
  Claim C8. On a table whose \<open>WhiteElo\<close> and \<open>BlackElo\<close> columns are numeric (integer or
  float columns), in every row \<open>i\<close> of the table returned: when both ratings are present
  and are whole numbers \<open>x\<close> and \<open>y\<close> of magnitude \<open>2 ^ 52\<close> at most, as every rating is,
  \<open>AvgElo\<close> is their mean \<open>(x + y) / 2\<close> and \<open>EloDiff\<close> the absolute value of their
  difference, with no wrapping and no rounding; when one of them is missing (NaN),
  \<open>AvgElo\<close> and \<open>EloDiff\<close> are missing (NaN, not 0). \<open>AvgElo\<close> is a float column; \<open>EloDiff\<close>
  is an integer column when both ratings are integer columns and a float column otherwise.
\<close>

theorem preprocess_data_elo:
  assumes run: "preprocess_data cal h df = (Inr d, h')"
      and wf: "wf_df (h ! df)"
      and w: "map_of (cols (h ! df)) ''WhiteElo'' = Some white"
      and b: "map_of (cols (h ! df)) ''BlackElo'' = Some black"
      and nw: "is_numeric white" and nb: "is_numeric black"
      and i: "i < nrows (h ! df)"
  shows "\<exists>avg diff.
           map_of (cols (h' ! d)) ''AvgElo'' = Some (NumCol avg)
           \<and> map_of (cols (h' ! d)) ''EloDiff'' = Some diff
           \<and> is_numeric diff
           \<and> length avg = nrows (h ! df) \<and> col_len diff = nrows (h ! df)
           \<and> (\<forall>x y. number_at white i = Finite (of_int x) \<and> number_at black i = Finite (of_int y)
                     \<and> \<bar>x\<bar> \<le> 2 ^ 52 \<and> \<bar>y\<bar> \<le> 2 ^ 52 \<longrightarrow>
                  avg ! i = Finite ((of_int x + of_int y) / 2)
                  \<and> number_at diff i = Finite \<bar>of_int x - of_int y\<bar>)
           \<and> (number_at white i = NaN \<or> number_at black i = NaN \<longrightarrow>
                  avg ! i = NaN \<and> number_at diff i = NaN)"
proof -
  from preprocess_data_Inr[OF run] obtain t1 t2 t3 t4 t5 where
    s1: "combine_date_time cal (h ! df) = Inr t1" and s2: "parse_time_control t1 = Inr t2" and
    s3: "calculate_average_elo t2 = Inr t3" and s4: "parse_result t3 = Inr t4" and
    s5: "extract_move_count t4 = Inr t5" and d: "d = length h" and h': "h' = h @ [t5]"
    by blast
  have lw: "col_len white = nrows (h ! df)" and lb: "col_len black = nrows (h ! df)"
    using wf_df_lookup[OF wf w] wf_df_lookup[OF wf b] by simp_all
  have w2: "map_of (cols t2) ''WhiteElo'' = Some white" and b2: "map_of (cols t2) ''BlackElo'' = Some black"
    using w b combine_date_time_frame[OF s1] parse_time_control_frame[OF s2] by simp_all
  have t5: "h' ! d = t5" using d h' by simp
  have f: "map_of (cols t5) ''AvgElo'' = map_of (cols t3) ''AvgElo''"
          "map_of (cols t5) ''EloDiff'' = map_of (cols t3) ''EloDiff''"
    using parse_result_frame[OF s4] extract_move_count_frame[OF s5] by simp_all
  from calculate_average_elo_numeric[OF s3 w2 b2 nw nb lw lb i]
  show ?thesis unfolding t5 f .
qed

theorem preprocess_data_elo_witness:
  "\<exists>avg diff.
     map_of (cols (snd (preprocess_data plain_calendar [example_games] 0) ! 1)) ''AvgElo'' = Some (NumCol avg)
     \<and> map_of (cols (snd (preprocess_data plain_calendar [example_games] 0) ! 1)) ''EloDiff'' = Some diff
     \<and> avg ! 0 = Finite 1510 \<and> number_at diff 0 = Finite 20
     \<and> avg ! 1 = NaN \<and> number_at diff 1 = NaN"
proof -
  have wf: "wf_df ([example_games] ! 0)" using wf_example_games by simp
  have w: "map_of (cols ([example_games] ! 0)) ''WhiteElo''
             = Some (NumCol [Finite 1500, NaN, Finite 1800, Finite 2100])"
    by (simp add: example_games_def)
  have b: "map_of (cols ([example_games] ! 0)) ''BlackElo''
             = Some (IntCol [1520, 1400, 1700, 2100])"
    by (simp add: example_games_def)
  have nw: "is_numeric (NumCol [Finite 1500, NaN, Finite 1800, Finite 2100] :: int list column)"
    and nb: "is_numeric (IntCol [1520, 1400, 1700, 2100] :: int list column)"
    by simp_all
  have i0: "0 < nrows ([example_games] ! 0)" and i1: "1 < nrows ([example_games] ! 0)"
    by (simp_all add: example_games_def)
  from preprocess_data_elo[OF example_games_run wf w b nw nb i0] obtain avg diff where
    a: "map_of (cols (snd (preprocess_data plain_calendar [example_games] 0) ! 1)) ''AvgElo'' = Some (NumCol avg)"
       "map_of (cols (snd (preprocess_data plain_calendar [example_games] 0) ! 1)) ''EloDiff'' = Some diff"
    and r0: "\<forall>x y. number_at (NumCol [Finite 1500, NaN, Finite 1800, Finite 2100] :: int list column) 0
                       = Finite (of_int x)
                   \<and> number_at (IntCol [1520, 1400, 1700, 2100] :: int list column) 0 = Finite (of_int y)
                   \<and> \<bar>x\<bar> \<le> 2 ^ 52 \<and> \<bar>y\<bar> \<le> 2 ^ 52 \<longrightarrow>
                 avg ! 0 = Finite ((of_int x + of_int y) / 2)
                 \<and> number_at diff 0 = Finite \<bar>of_int x - of_int y\<bar>"
    by blast
  from r0[rule_format, of 1500 1520] have v0: "avg ! 0 = Finite 1510" "number_at diff 0 = Finite 20"
    by simp_all
  from preprocess_data_elo[OF example_games_run wf w b nw nb i1] obtain avg' diff' where
    a': "map_of (cols (snd (preprocess_data plain_calendar [example_games] 0) ! 1)) ''AvgElo'' = Some (NumCol avg')"
        "map_of (cols (snd (preprocess_data plain_calendar [example_games] 0) ! 1)) ''EloDiff'' = Some diff'"
        "avg' ! 1 = NaN" "number_at diff' 1 = NaN"
    by auto
  from a a' have "avg' = avg" "diff' = diff" by simp_all
  with a a' v0 show ?thesis by blast
qed

subsection \<open>Result flags\<close>

text \<open>
  Claim C9. On a table whose \<open>Result\<close> column holds strings, in every row \<open>i\<close> of the table
  returned the three flags are computed from the result of that row alone: \<open>WhiteWins\<close> is
  1 (true) when the result is \<open>1-0\<close> and 0 (false) otherwise, \<open>BlackWins\<close> is 1 when it is
  \<open>0-1\<close> and 0 otherwise, \<open>Draw\<close> is 1 when it is \<open>1/2-1/2\<close> and 0 otherwise. So one flag at
  most is 1, and all three are 0 for any other result and for a missing one. The flags
  are stored as the integers 1 and 0 (\<open>astype(int)\<close>), in integer columns.
\<close>

theorem preprocess_data_result_flags:
  assumes run: "preprocess_data cal h df = (Inr d, h')"
      and wf: "wf_df (h ! df)"
      and r: "map_of (cols (h ! df)) ''Result'' = Some (ObjCol rs)"
      and i: "i < nrows (h ! df)"
  shows "\<exists>ww bw dr.
           map_of (cols (h' ! d)) ''WhiteWins'' = Some (IntCol ww)
           \<and> map_of (cols (h' ! d)) ''BlackWins'' = Some (IntCol bw)
           \<and> map_of (cols (h' ! d)) ''Draw'' = Some (IntCol dr)
           \<and> ww ! i = (if rs ! i = Some ''1-0'' then 1 else 0)
           \<and> bw ! i = (if rs ! i = Some ''0-1'' then 1 else 0)
           \<and> dr ! i = (if rs ! i = Some ''1/2-1/2'' then 1 else 0)"
proof -
  from preprocess_data_Inr[OF run] obtain t1 t2 t3 t4 t5 where
    s1: "combine_date_time cal (h ! df) = Inr t1" and s2: "parse_time_control t1 = Inr t2" and
    s3: "calculate_average_elo t2 = Inr t3" and s4: "parse_result t3 = Inr t4" and
    s5: "extract_move_count t4 = Inr t5" and d: "d = length h" and h': "h' = h @ [t5]"
    by blast
  have lr: "length rs = nrows (h ! df)" using wf_df_lookup[OF wf r] by simp
  have "map_of (cols t3) ''Result'' = Some (ObjCol rs)"
    using r combine_date_time_frame[OF s1] parse_time_control_frame[OF s2]
          calculate_average_elo_frame[OF s3] by simp
  from parse_result_flags[OF s4 this] have
    "map_of (cols t5) ''WhiteWins'' = Some (astype_int (eq_str (ObjCol rs) ''1-0''))"
    "map_of (cols t5) ''BlackWins'' = Some (astype_int (eq_str (ObjCol rs) ''0-1''))"
    "map_of (cols t5) ''Draw'' = Some (astype_int (eq_str (ObjCol rs) ''1/2-1/2''))"
    using extract_move_count_frame[OF s5] by simp_all
  moreover have "h' ! d = t5" using d h' by simp
  ultimately show ?thesis using i lr by (simp add: astype_int_def)
qed

theorem preprocess_data_result_flags_witness:
  "\<exists>ww bw dr.
     map_of (cols (snd (preprocess_data plain_calendar [example_games] 0) ! 1)) ''WhiteWins'' = Some (IntCol ww)
     \<and> map_of (cols (snd (preprocess_data plain_calendar [example_games] 0) ! 1)) ''BlackWins'' = Some (IntCol bw)
     \<and> map_of (cols (snd (preprocess_data plain_calendar [example_games] 0) ! 1)) ''Draw'' = Some (IntCol dr)
     \<and> ww ! 1 = 1 \<and> bw ! 1 = 0 \<and> dr ! 1 = 0"
proof -
  have wf: "wf_df ([example_games] ! 0)" using wf_example_games by simp
  have r: "map_of (cols ([example_games] ! 0)) ''Result''
             = Some (ObjCol [Some ''1/2-1/2'', Some ''1-0'', Some ''0-1'', Some ''*''])"
    by (simp add: example_games_def)
  have i: "1 < nrows ([example_games] ! 0)" by (simp add: example_games_def)
  from preprocess_data_result_flags[OF example_games_run wf r i] show ?thesis by simp
qed

end
